theory Spec2Isabelle
  imports Complex_Main "HOL-Library.Log_Nat" "HOL-Library.Word"
begin

text \<open>
  A model of the attendance demo of
  \<^verbatim>\<open>smart_college_attendance_react_preview_mocked_demo.jsx\<close>: the React component
  \<^verbatim>\<open>App\<close> with its local-storage helpers, the one with OTP verification, WebAuthn,
  the selfie and the working-day statistics. (The file starts with an earlier, simpler
  component that counts attendance against a fixed 100 working days; it is not modelled.)

  Local storage, the React state, the values the component memoises and the objects of
  the page that the code can write to are one record; every handler is a function from
  state to state, taking what the environment supplies (the clock, the time zone, the
  random code, the browser's answer to WebAuthn) as arguments. Messages are values of
  a datatype. The handlers run one after the other: what may happen while an
  \<^verbatim>\<open>await\<close> is pending is not modelled.
\<close>

section \<open>Calendar dates, time values and the local time zone\<close>

text \<open>
  The application stores and compares calendar dates as ISO strings \<^verbatim>\<open>YYYY-MM-DD\<close>.
  Such a string is represented by its day number since 1970-01-01 (a Thursday); the
  representation is a bijection on valid dates, so \<^verbatim>\<open>dates.includes(day)\<close> is equality
  of day numbers. A \<^verbatim>\<open>Date\<close> object is its time value: milliseconds since the epoch, UTC
  (the range limit of time values is not modelled).
\<close>

type_synonym iso_date = int
type_synonym time_value = int

definition msPerDay :: int where
  "msPerDay = 86400000"

text \<open>
  \<^verbatim>\<open>new Date("YYYY-MM-DD")\<close> is UTC midnight of that date, whereas \<^verbatim>\<open>getDay()\<close>,
  \<^verbatim>\<open>getDate()\<close> and \<^verbatim>\<open>setDate()\<close> work in local time. The local time zone is part of the
  environment. It is given by two functions, as in ECMAScript: the offset from UTC (in
  milliseconds, local = UTC + offset) in force at a UTC instant, and the offset by which
  a local time value is read back as UTC (for a local time that occurs twice or not at
  all, the offset before the transition). The offset may change at any instant, as
  with daylight saving time. The one property required of a zone is that the same local
  time on the next local day is a later instant: otherwise the loop of
  \<^verbatim>\<open>workingDaysCount\<close> would not advance.
\<close>

typedef zone = "{z :: (time_value \<Rightarrow> int) \<times> (time_value \<Rightarrow> int).
                   \<forall>t. snd z (t + fst z t + msPerDay) < fst z t + msPerDay}"
proof
  show "(\<lambda>t. 0, \<lambda>t. 0) \<in> {z :: (time_value \<Rightarrow> int) \<times> (time_value \<Rightarrow> int).
                   \<forall>t. snd z (t + fst z t + msPerDay) < fst z t + msPerDay}"
    by (simp add: msPerDay_def)
qed

setup_lifting type_definition_zone

lift_definition utc_offset :: "zone \<Rightarrow> time_value \<Rightarrow> int" is "\<lambda>z. fst z" .

lift_definition local_offset :: "zone \<Rightarrow> time_value \<Rightarrow> int" is "\<lambda>z. snd z" .

text \<open>A zone whose offset never changes.\<close>

lift_definition fixed_zone :: "int \<Rightarrow> zone" is "\<lambda>tz. (\<lambda>t. tz, \<lambda>t. tz)"
  by (simp add: msPerDay_def)

text \<open>
  Central European time around the end of daylight saving time on 27 October 2024:
  UTC+2 before 01:00 UTC of that day (day 20023), UTC+1 from then on; the local hour
  from 02:00 to 03:00 occurs twice and is read with the earlier offset.
\<close>

lift_definition berlin_autumn_2024 :: zone is
  "(\<lambda>t. if t < 20023 * 86400000 + 3600000 then 7200000 else 3600000,
    \<lambda>t. if t < 20023 * 86400000 + 3600000 + 7200000 then 7200000 else 3600000)"
  by (simp add: msPerDay_def)

definition LocalTime :: "zone \<Rightarrow> time_value \<Rightarrow> time_value" where
  "LocalTime z t = t + utc_offset z t"

definition UTC :: "zone \<Rightarrow> time_value \<Rightarrow> time_value" where
  "UTC z t = t - local_offset z t"

definition new_Date :: "iso_date \<Rightarrow> time_value" where
  "new_Date dateISO = dateISO * msPerDay"

text \<open>\<^verbatim>\<open>todayISO()\<close>: \<^verbatim>\<open>new Date().toISOString().slice(0, 10)\<close>, the UTC date of now.\<close>

definition todayISO :: "time_value \<Rightarrow> iso_date" where
  "todayISO now = now div msPerDay"

text \<open>\<^verbatim>\<open>getDay()\<close>: the week day of the local time, 0 Sunday ... 6 Saturday.\<close>

definition getDay :: "zone \<Rightarrow> time_value \<Rightarrow> int" where
  "getDay z t = (LocalTime z t div msPerDay + 4) mod 7"

definition isWeekday :: "zone \<Rightarrow> time_value \<Rightarrow> bool" where
  "isWeekday z date = (let day = getDay z date in day \<noteq> 0 \<and> day \<noteq> 6)"

text \<open>
  \<^verbatim>\<open>d.setDate(d.getDate() + 1)\<close>: the local time of \<open>d\<close>, one day added to its
  day number with the time within the day kept, read back as UTC.
\<close>

definition setDate_next_day :: "zone \<Rightarrow> time_value \<Rightarrow> time_value" where
  "setDate_next_day z d = UTC z (LocalTime z d + msPerDay)"

text \<open>
  The loop of \<^verbatim>\<open>workingDaysCount\<close>:
  \<^verbatim>\<open>for (let d = new Date(start); d <= end; d.setDate(d.getDate() + 1)) if (isWeekday(d)) count++\<close>.
\<close>

function workingDays_loop :: "zone \<Rightarrow> time_value \<Rightarrow> time_value \<Rightarrow> nat \<Rightarrow> nat" where
  "workingDays_loop z d end_t count =
     (if d \<le> end_t
      then workingDays_loop z (setDate_next_day z d) end_t
             (if isWeekday z d then count + 1 else count)
      else count)"
  by pat_completeness auto
termination
proof (relation "measure (\<lambda>(z, d, end_t, count). nat (end_t + 1 - d))")
  show "wf (measure (\<lambda>(z, d, end_t, count). nat (end_t + 1 - d)))" by simp
next
  fix z :: zone and d end_t :: time_value and count :: nat
  assume "d \<le> end_t"
  moreover have "local_offset z (d + utc_offset z d + msPerDay) < utc_offset z d + msPerDay"
    by transfer auto
  ultimately show "((z, setDate_next_day z d, end_t, if isWeekday z d then count + 1 else count),
      (z, d, end_t, count)) \<in> measure (\<lambda>(z, d, end_t, count). nat (end_t + 1 - d))"
    by (simp add: setDate_next_day_def UTC_def LocalTime_def)
qed

definition workingDaysCount :: "zone \<Rightarrow> iso_date \<Rightarrow> iso_date \<Rightarrow> nat" where
  "workingDaysCount z startDateISO endDateISO =
     workingDays_loop z (new_Date startDateISO) (new_Date endDateISO) 0"

text \<open>The week day of a calendar date itself (what the specification means by
  "falls on"), 0 Sunday ... 6 Saturday.\<close>

definition weekday_of_date :: "iso_date \<Rightarrow> int" where
  "weekday_of_date dateISO = (dateISO + 4) mod 7"

section \<open>Strings\<close>

text \<open>
  A JavaScript string is a sequence of 16-bit code units. \<open>str\<close> embeds an ASCII
  literal. \<^verbatim>\<open>String.prototype.trim\<close> removes leading and trailing white space and line
  terminators: TAB, LF, VT, FF, CR, SPACE, NBSP, U+1680, U+2000 to U+200A, U+2028,
  U+2029, U+202F, U+205F, U+3000 and U+FEFF, each one code unit.
\<close>

type_synonym js_string = "16 word list"

definition str :: "string \<Rightarrow> js_string" where
  "str cs = map of_char cs"

definition isWhiteSpace :: "16 word \<Rightarrow> bool" where
  "isWhiteSpace c =
     (c = 0x0009 \<or> c = 0x000A \<or> c = 0x000B \<or> c = 0x000C \<or> c = 0x000D \<or> c = 0x0020 \<or>
      c = 0x00A0 \<or> c = 0x1680 \<or> (0x2000 \<le> c \<and> c \<le> 0x200A) \<or> c = 0x2028 \<or>
      c = 0x2029 \<or> c = 0x202F \<or> c = 0x205F \<or> c = 0x3000 \<or> c = 0xFEFF)"

definition trim :: "js_string \<Rightarrow> js_string" where
  "trim s = rev (dropWhile isWhiteSpace (rev (dropWhile isWhiteSpace s)))"

text \<open>A string or \<^verbatim>\<open>undefined\<close> used as a property key, in a template literal or as
  a local-storage value: \<^verbatim>\<open>undefined\<close> becomes the string "undefined".\<close>

definition key_string :: "js_string option \<Rightarrow> js_string" where
  "key_string v = (case v of None \<Rightarrow> str ''undefined'' | Some k \<Rightarrow> k)"

section \<open>User objects and the prototype chain\<close>

text \<open>
  The own properties of a user object, as \<^verbatim>\<open>verifyOTP\<close>, \<^verbatim>\<open>setPassword\<close> and
  \<^verbatim>\<open>createWebAuthnCredential\<close> assign them and \<^verbatim>\<open>JSON.stringify\<close> stores them: each
  is a string or absent, \<^verbatim>\<open>webauthn\<close> is \<^verbatim>\<open>true\<close> or absent.
\<close>

record user_fields =
  collegeId :: "js_string option"
  email :: "js_string option"
  phone :: "js_string option"
  password :: "js_string option"
  webauthn :: bool

definition no_fields :: user_fields where
  "no_fields = \<lparr>collegeId = None, email = None, phone = None, password = None, webauthn = False\<rparr>"

text \<open>
  \<^verbatim>\<open>getUser(id)\<close> is \<^verbatim>\<open>users[id] || null\<close> on the object that \<^verbatim>\<open>JSON.parse\<close> returns,
  so besides a stored account (a fresh plain object) it can return what the object
  inherits from \<^verbatim>\<open>Object.prototype\<close>: for \<^verbatim>\<open>__proto__\<close> the prototype itself, for
  \<^verbatim>\<open>constructor\<close>, \<^verbatim>\<open>toString\<close> and the like a built-in function, and for the name of
  a property that the code has put on \<^verbatim>\<open>Object.prototype\<close> its value, a non-empty
  string or \<^verbatim>\<open>true\<close>.
\<close>

datatype user_obj =
    Plain user_fields
  | ObjectPrototype
  | PrototypeFunction js_string
  | PrimitiveString js_string
  | PrimitiveTrue

text \<open>
  The objects of the page that outlive a handler and that the code can write to: the
  properties it has added to \<^verbatim>\<open>Object.prototype\<close> and to the built-in functions.
  A page load starts with none.
\<close>

record heap =
  objectPrototype :: user_fields
  prototypeFunctions :: "js_string \<Rightarrow> user_fields"

definition pristine_heap :: heap where
  "pristine_heap = \<lparr>objectPrototype = no_fields, prototypeFunctions = (\<lambda>k. no_fields)\<rparr>"

text \<open>The names of the function-valued properties of \<^verbatim>\<open>Object.prototype\<close>.\<close>

definition function_names :: "js_string list" where
  "function_names = map str
     [''constructor'', ''__defineGetter__'', ''__defineSetter__'', ''hasOwnProperty'',
      ''__lookupGetter__'', ''__lookupSetter__'', ''isPrototypeOf'', ''propertyIsEnumerable'',
      ''toString'', ''valueOf'', ''toLocaleString'']"

definition own_fields :: "heap \<Rightarrow> user_obj \<Rightarrow> user_fields" where
  "own_fields h u =
     (case u of
        Plain f \<Rightarrow> f
      | ObjectPrototype \<Rightarrow> objectPrototype h
      | PrototypeFunction k \<Rightarrow> prototypeFunctions h k
      | PrimitiveString v \<Rightarrow> no_fields
      | PrimitiveTrue \<Rightarrow> no_fields)"

text \<open>Reading \<^verbatim>\<open>u.collegeId\<close> and \<^verbatim>\<open>u.password\<close>: the own property, or else the one
  of \<^verbatim>\<open>Object.prototype\<close>, where every prototype chain here ends.\<close>

definition get_collegeId :: "heap \<Rightarrow> user_obj \<Rightarrow> js_string option" where
  "get_collegeId h u =
     (case collegeId (own_fields h u) of
        Some v \<Rightarrow> Some v
      | None \<Rightarrow> collegeId (objectPrototype h))"

definition get_password :: "heap \<Rightarrow> user_obj \<Rightarrow> js_string option" where
  "get_password h u =
     (case password (own_fields h u) of
        Some v \<Rightarrow> Some v
      | None \<Rightarrow> password (objectPrototype h))"

text \<open>
  An assignment \<^verbatim>\<open>u.email = ...\<close>, \<^verbatim>\<open>u.password = ...\<close> or \<^verbatim>\<open>u.webauthn = true\<close>,
  as an update of the own properties. On a string or boolean it raises a TypeError
  (module code is strict): \<open>None\<close>.
\<close>

fun assign :: "(user_fields \<Rightarrow> user_fields) \<Rightarrow> heap \<Rightarrow> user_obj \<Rightarrow> (heap \<times> user_obj) option" where
  "assign upd h (Plain f) = Some (h, Plain (upd f))"
| "assign upd h ObjectPrototype =
     Some (h\<lparr>objectPrototype := upd (objectPrototype h)\<rparr>, ObjectPrototype)"
| "assign upd h (PrototypeFunction k) =
     Some (h\<lparr>prototypeFunctions := (prototypeFunctions h)(k := upd (prototypeFunctions h k))\<rparr>,
           PrototypeFunction k)"
| "assign upd h (PrimitiveString v) = None"
| "assign upd h PrimitiveTrue = None"

section \<open>Local storage: accounts, session, attendance\<close>

text \<open>The object under \<^verbatim>\<open>sca_users_v1\<close>: its own properties, each a stored user
  object.\<close>

type_synonym users_store = "js_string \<rightharpoonup> user_fields"

definition truthy_string :: "js_string option \<Rightarrow> user_obj option" where
  "truthy_string v =
     (case v of None \<Rightarrow> None | Some cs \<Rightarrow> if cs = [] then None else Some (PrimitiveString cs))"

text \<open>What \<^verbatim>\<open>users[id] || null\<close> is when \<^verbatim>\<open>users\<close> has no own property \<open>id\<close>.\<close>

definition inherited_property :: "heap \<Rightarrow> js_string \<Rightarrow> user_obj option" where
  "inherited_property h ident =
     (if ident = str ''__proto__'' then Some ObjectPrototype
      else if ident \<in> set function_names then Some (PrototypeFunction ident)
      else if ident = str ''collegeId'' then truthy_string (collegeId (objectPrototype h))
      else if ident = str ''email'' then truthy_string (email (objectPrototype h))
      else if ident = str ''phone'' then truthy_string (phone (objectPrototype h))
      else if ident = str ''password'' then truthy_string (password (objectPrototype h))
      else if ident = str ''webauthn'' then
        (if webauthn (objectPrototype h) then Some PrimitiveTrue else None)
      else None)"

definition getUser :: "heap \<Rightarrow> users_store \<Rightarrow> js_string \<Rightarrow> user_obj option" where
  "getUser h us ident =
     (case us ident of
        Some f \<Rightarrow> Some (Plain f)
      | None \<Rightarrow> inherited_property h ident)"

text \<open>
  What \<^verbatim>\<open>JSON.stringify\<close> keeps of a value stored in \<^verbatim>\<open>users\<close>: the own enumerable
  properties of an object (for \<^verbatim>\<open>Object.prototype\<close>, those the code has added); a
  function is left out. (\<^verbatim>\<open>upsertUser\<close> is never reached with a string or boolean:
  the assignment before it raises.)
\<close>

definition stored_value :: "heap \<Rightarrow> user_obj \<Rightarrow> user_fields option" where
  "stored_value h u =
     (case u of
        Plain f \<Rightarrow> Some f
      | ObjectPrototype \<Rightarrow> Some (objectPrototype h)
      | PrototypeFunction k \<Rightarrow> None
      | PrimitiveString v \<Rightarrow> None
      | PrimitiveTrue \<Rightarrow> None)"

text \<open>
  \<^verbatim>\<open>upsertUser(user)\<close>: \<^verbatim>\<open>users[user.collegeId] = user\<close> on the parsed object, which
  is then stringified. Under the key \<^verbatim>\<open>__proto__\<close>, unless it is an own property
  already, the assignment sets the prototype of \<^verbatim>\<open>users\<close> and stores nothing.
\<close>

definition upsertUser :: "heap \<Rightarrow> users_store \<Rightarrow> user_obj \<Rightarrow> users_store" where
  "upsertUser h us u =
     (let k = key_string (get_collegeId h u)
      in if k = str ''__proto__'' \<and> us k = None then us else us(k := stored_value h u))"

text \<open>The arrays under \<^verbatim>\<open>sca_att_<collegeId>\<close>; a missing key reads as the empty array.\<close>

type_synonym attendance_store = "js_string \<Rightarrow> iso_date list"

definition loadAttendance :: "attendance_store \<Rightarrow> js_string \<Rightarrow> iso_date list" where
  "loadAttendance att cid = att cid"

definition saveAttendance :: "attendance_store \<Rightarrow> js_string \<Rightarrow> iso_date list \<Rightarrow> attendance_store" where
  "saveAttendance att cid dates = att(cid := dates)"

section \<open>Application state\<close>

datatype view = ViewAuth | ViewApp

datatype step = StepLogin | StepRegister | StepVerify | StepSetpass

text \<open>
  The messages the code passes to \<^verbatim>\<open>setErr\<close>, under the specification's names where it
  has one:
  \<^item> \<open>NotFoundError\<close>: "Account not found. Please register first."
  \<^item> \<open>NoPasswordSetError\<close>: "Password not set. Complete registration."
  \<^item> \<open>InvalidCredentialsError\<close>: "Invalid credentials."
  \<^item> \<open>ValidationError\<close>: "Fill all fields"
  \<^item> \<open>InvalidCodeError\<close>: "Incorrect OTP"
  \<^item> \<open>WeakPasswordError\<close>: "Password must be at least 6 characters"
  \<^item> \<open>MismatchError\<close>: "Passwords do not match"
  \<^item> \<open>UserNotFoundDuringSetup\<close>: "User not found during setup"
  \<^item> \<open>SelfieRequired\<close>: "Please capture a selfie first"
  \<^item> \<open>BiometricFailed\<close>: "Biometric/Passkey auth failed or not available"
  \<^item> \<open>NonWorkingDayError\<close>: "Today is not a working day (weekend)"
  \<^item> \<open>TypeError\<close>: the exception of \<^verbatim>\<open>user.collegeId\<close> when \<^verbatim>\<open>user\<close> is null
\<close>

datatype error =
    NotFoundError
  | NoPasswordSetError
  | InvalidCredentialsError
  | ValidationError
  | InvalidCodeError
  | WeakPasswordError
  | MismatchError
  | UserNotFoundDuringSetup
  | SelfieRequired
  | BiometricFailed
  | NonWorkingDayError
  | TypeError

text \<open>The specification's \<open>AuthenticationRequiredError\<close> covers both confirmations.\<close>

definition isAuthenticationRequiredError :: "error \<Rightarrow> bool" where
  "isAuthenticationRequiredError e = (e = SelfieRequired \<or> e = BiometricFailed)"

datatype info = InfoOtpSent | InfoOtpVerified | InfoPasswordSet | InfoAttendanceMarked

datatype wa_status = WaRegistering | WaRegistered | WaSkipped

text \<open>
  What the browser answers to \<^verbatim>\<open>navigator.credentials.create\<close> or \<^verbatim>\<open>get\<close>: WebAuthn
  is not supported, the call throws, it returns null, or it returns a credential.
\<close>

datatype webauthn_outcome = WaNotSupported | WaThrows | WaNull | WaCredential

record form =
  form_collegeId :: js_string
  form_email :: js_string
  form_phone :: js_string
  form_otp :: js_string
  form_password :: js_string
  form_confirm :: js_string

datatype field = FCollegeId | FEmail | FPhone | FOtp | FPassword | FConfirm

text \<open>
  Local storage (\<open>users\<close>, \<open>session\<close>, \<open>attendance\<close>), the objects of the page
  (\<open>heap\<close>), the React state, and the two values the component memoises:
  \<open>workingDays\<close>, recomputed only when \<^verbatim>\<open>semStart\<close> changes, and
  \<open>attendanceDates\<close>, recomputed only when \<^verbatim>\<open>user\<close> changes. The semester start is
  the value of a date input: a date, or the empty string (\<open>None\<close>) once cleared.
\<close>

record app_state =
  users :: users_store
  session :: "js_string option"
  attendance :: attendance_store
  heap :: heap
  view :: view
  step :: step
  form :: form
  info :: "info option"
  err :: "error option"
  otpSent :: bool
  otpCode :: js_string
  user :: "user_obj option"
  marking :: bool
  shotBlob :: bool
  waStatus :: "wa_status option"
  semStart :: "iso_date option"
  workingDays :: nat
  attendanceDates :: "iso_date list"

definition empty_form :: form where
  "empty_form = \<lparr>form_collegeId = [], form_email = [], form_phone = [], form_otp = [],
     form_password = [], form_confirm = []\<rparr>"

text \<open>
  The value of the memo \<^verbatim>\<open>workingDays\<close> when it is computed:
  \<^verbatim>\<open>workingDaysCount(semStart, todayISO())\<close>; an empty semester start is an invalid date,
  which no \<^verbatim>\<open>d <= end\<close> holds of.
\<close>

definition compute_workingDays :: "zone \<Rightarrow> time_value \<Rightarrow> iso_date option \<Rightarrow> nat" where
  "compute_workingDays z now start =
     (case start of
        None \<Rightarrow> 0
      | Some d \<Rightarrow> workingDaysCount z d (todayISO now))"

text \<open>The value of the memo \<^verbatim>\<open>attendanceDates\<close> when it is computed:
  \<^verbatim>\<open>user ? loadAttendance(user.collegeId) : []\<close>.\<close>

definition compute_attendanceDates :: "heap \<Rightarrow> attendance_store \<Rightarrow> user_obj option \<Rightarrow> iso_date list" where
  "compute_attendanceDates h att u =
     (case u of
        None \<Rightarrow> []
      | Some ob \<Rightarrow> loadAttendance att (key_string (get_collegeId h ob)))"

text \<open>
  Whether React finds the dependency \<^verbatim>\<open>user\<close> unchanged (\<^verbatim>\<open>Object.is\<close>). A plain
  object handed to \<^verbatim>\<open>setUser\<close> is always a new one, just parsed; the prototype, a
  built-in function and a primitive value are the same each time.
\<close>

fun same_object :: "user_obj option \<Rightarrow> user_obj option \<Rightarrow> bool" where
  "same_object None None = True"
| "same_object (Some ObjectPrototype) (Some ObjectPrototype) = True"
| "same_object (Some (PrototypeFunction a)) (Some (PrototypeFunction b)) = (a = b)"
| "same_object (Some (PrimitiveString a)) (Some (PrimitiveString b)) = (a = b)"
| "same_object (Some PrimitiveTrue) (Some PrimitiveTrue) = True"
| "same_object a b = False"

text \<open>\<^verbatim>\<open>setUser(u)\<close> and the render that follows it.\<close>

definition setUser :: "user_obj option \<Rightarrow> app_state \<Rightarrow> app_state" where
  "setUser u s =
     s\<lparr>user := u,
       attendanceDates :=
         (if same_object (user s) u then attendanceDates s
          else compute_attendanceDates (heap s) (attendance s) u)\<rparr>"

text \<open>\<^verbatim>\<open>setSemStart(value)\<close> and the render that follows it.\<close>

definition setSemStart :: "zone \<Rightarrow> time_value \<Rightarrow> iso_date option \<Rightarrow> app_state \<Rightarrow> app_state" where
  "setSemStart z now d s =
     s\<lparr>semStart := d,
       workingDays := (if d = semStart s then workingDays s else compute_workingDays z now d)\<rparr>"

text \<open>
  The state after a page load: the React state at its initial values, local storage as
  found, no property added to any built-in object, the first render, and the effect
  that restores the session. \<open>semStart0\<close> is \<^verbatim>\<open>defaultSemesterStart()\<close>.
\<close>

definition mount ::
  "zone \<Rightarrow> time_value \<Rightarrow> users_store \<Rightarrow> js_string option \<Rightarrow> attendance_store \<Rightarrow> iso_date \<Rightarrow> app_state" where
  "mount z now us sess att semStart0 =
     (let s = \<lparr>users = us, session = sess, attendance = att, heap = pristine_heap,
                view = ViewAuth, step = StepLogin,
                form = empty_form, info = None, err = None, otpSent = False, otpCode = [],
                user = None, marking = False, shotBlob = False, waStatus = None,
                semStart = Some semStart0,
                workingDays = compute_workingDays z now (Some semStart0),
                attendanceDates = []\<rparr>
      in case sess of
           None \<Rightarrow> s
         | Some sid \<Rightarrow>
             if sid = [] then s
             else (case getUser (heap s) us sid of
                     Some u \<Rightarrow> (setUser (Some u) s)\<lparr>view := ViewApp\<rparr>
                   | None \<Rightarrow> s\<lparr>session := None\<rparr>))"

definition init_state :: "zone \<Rightarrow> time_value \<Rightarrow> iso_date \<Rightarrow> app_state" where
  "init_state z now semStart0 = mount z now Map.empty None (\<lambda>cid. []) semStart0"

definition updateField :: "field \<Rightarrow> js_string \<Rightarrow> app_state \<Rightarrow> app_state" where
  "updateField k v s =
     (case k of
        FCollegeId \<Rightarrow> s\<lparr>form := (form s)\<lparr>form_collegeId := v\<rparr>\<rparr>
      | FEmail \<Rightarrow> s\<lparr>form := (form s)\<lparr>form_email := v\<rparr>\<rparr>
      | FPhone \<Rightarrow> s\<lparr>form := (form s)\<lparr>form_phone := v\<rparr>\<rparr>
      | FOtp \<Rightarrow> s\<lparr>form := (form s)\<lparr>form_otp := v\<rparr>\<rparr>
      | FPassword \<Rightarrow> s\<lparr>form := (form s)\<lparr>form_password := v\<rparr>\<rparr>
      | FConfirm \<Rightarrow> s\<lparr>form := (form s)\<lparr>form_confirm := v\<rparr>\<rparr>)"

section \<open>Account and session operations\<close>

text \<open>\<^verbatim>\<open>!u.password\<close>: the password read is undefined or the empty string.\<close>

definition no_password :: "heap \<Rightarrow> user_obj \<Rightarrow> bool" where
  "no_password h u = (case get_password h u of None \<Rightarrow> True | Some pw \<Rightarrow> pw = [])"

definition doLogin :: "app_state \<Rightarrow> app_state" where
  "doLogin s =
     (let s1 = s\<lparr>err := None\<rparr> in
      case getUser (heap s1) (users s1) (trim (form_collegeId (form s1))) of
        None \<Rightarrow> s1\<lparr>err := Some NotFoundError\<rparr>
      | Some u \<Rightarrow>
          if no_password (heap s1) u then s1\<lparr>err := Some NoPasswordSetError\<rparr>
          else if get_password (heap s1) u \<noteq> Some (form_password (form s1))
            then s1\<lparr>err := Some InvalidCredentialsError\<rparr>
          else (setUser (Some u) s1)\<lparr>view := ViewApp, info := None, err := None,
                   session := Some (key_string (get_collegeId (heap s1) u))\<rparr>)"

definition startRegister :: "app_state \<Rightarrow> app_state" where
  "startRegister s = s\<lparr>step := StepRegister, err := None, info := None\<rparr>"

text \<open>\<open>code\<close> is the six-digit string the random number generator produces.\<close>

definition sendOTP :: "js_string \<Rightarrow> app_state \<Rightarrow> app_state" where
  "sendOTP code s =
     (let s1 = s\<lparr>err := None\<rparr> in
      if form_collegeId (form s1) = [] \<or> form_email (form s1) = [] \<or> form_phone (form s1) = []
      then s1\<lparr>err := Some ValidationError\<rparr>
      else s1\<lparr>otpCode := code, otpSent := True, step := StepVerify, info := Some InfoOtpSent\<rparr>)"

text \<open>
  \<^verbatim>\<open>verifyOTP\<close>. When the object found is a string or boolean, the first assignment
  raises and the handler ends there, after \<^verbatim>\<open>setErr("")\<close>.
\<close>

definition verifyOTP :: "app_state \<Rightarrow> app_state" where
  "verifyOTP s =
     (let s1 = s\<lparr>err := None\<rparr> in
      if form_otp (form s1) \<noteq> otpCode s1 then s1\<lparr>err := Some InvalidCodeError\<rparr>
      else
        let u0 = (case getUser (heap s1) (users s1) (form_collegeId (form s1)) of
                    Some u \<Rightarrow> u
                  | None \<Rightarrow> Plain (no_fields\<lparr>collegeId := Some (form_collegeId (form s1))\<rparr>))
        in case assign (\<lambda>f. f\<lparr>email := Some (form_email (form s1)),
                                phone := Some (form_phone (form s1))\<rparr>) (heap s1) u0 of
             None \<Rightarrow> s1
           | Some (h1, u1) \<Rightarrow>
               s1\<lparr>heap := h1, users := upsertUser h1 (users s1) u1, step := StepSetpass,
                  info := Some InfoOtpVerified\<rparr>)"

text \<open>
  \<^verbatim>\<open>createWebAuthnCredential\<close>: on a credential it reads the user again, sets the flag
  and stores the user; a missing user and a failing assignment raise inside the
  \<^verbatim>\<open>try\<close> and yield \<^verbatim>\<open>{ok: false}\<close>, as every other outcome does.
\<close>

definition createWebAuthnCredential ::
  "webauthn_outcome \<Rightarrow> heap \<Rightarrow> users_store \<Rightarrow> js_string option \<Rightarrow> heap \<times> users_store \<times> bool" where
  "createWebAuthnCredential outcome h us cid =
     (if outcome = WaCredential
      then (case getUser h us (key_string cid) of
              None \<Rightarrow> (h, us, False)
            | Some u \<Rightarrow>
                (case assign (\<lambda>f. f\<lparr>webauthn := True\<rparr>) h u of
                   None \<Rightarrow> (h, us, False)
                 | Some (h1, u1) \<Rightarrow> (h1, upsertUser h1 us u1, True)))
      else (h, us, False))"

definition authenticateWithWebAuthn :: "webauthn_outcome \<Rightarrow> bool" where
  "authenticateWithWebAuthn outcome = (outcome = WaCredential)"

text \<open>
  \<^verbatim>\<open>setPassword\<close>. When the object found is a string or boolean, the assignment of the
  password raises and the handler ends there, after \<^verbatim>\<open>setErr("")\<close>.
\<close>

definition setPassword :: "webauthn_outcome \<Rightarrow> app_state \<Rightarrow> app_state" where
  "setPassword outcome s =
     (let s1 = s\<lparr>err := None\<rparr> in
      if form_password (form s1) = [] \<or> length (form_password (form s1)) < 6
      then s1\<lparr>err := Some WeakPasswordError\<rparr>
      else if form_password (form s1) \<noteq> form_confirm (form s1)
      then s1\<lparr>err := Some MismatchError\<rparr>
      else
        case getUser (heap s1) (users s1) (form_collegeId (form s1)) of
          None \<Rightarrow> s1\<lparr>err := Some UserNotFoundDuringSetup\<rparr>
        | Some u0 \<Rightarrow>
            (case assign (\<lambda>f. f\<lparr>password := Some (form_password (form s1))\<rparr>) (heap s1) u0 of
               None \<Rightarrow> s1
             | Some (h1, u) \<Rightarrow>
                 let us1 = upsertUser h1 (users s1) u;
                     (h2, us2, ok) = createWebAuthnCredential outcome h1 us1 (get_collegeId h1 u)
                 in (setUser (Some u)
                       (s1\<lparr>heap := h2, users := us2, info := Some InfoPasswordSet,
                           waStatus := Some (if ok then WaRegistered else WaSkipped)\<rparr>))
                    \<lparr>view := ViewApp, session := Some (key_string (get_collegeId h2 u))\<rparr>))"

definition logout :: "app_state \<Rightarrow> app_state" where
  "logout s = (setUser None (s\<lparr>session := None\<rparr>))\<lparr>view := ViewAuth, step := StepLogin,
     form := empty_form, info := None, err := None\<rparr>"

section \<open>Attendance ledger\<close>

text \<open>
  \<^verbatim>\<open>markAttendance\<close>. \<open>now\<close> is the clock, \<open>outcome\<close> the browser's answer to the
  WebAuthn assertion. Every \<^verbatim>\<open>throw\<close> is caught and becomes \<^verbatim>\<open>err\<close>;
  \<^verbatim>\<open>marking\<close> is false again at the end. Neither memoised value is recomputed.
\<close>

definition markAttendance :: "zone \<Rightarrow> time_value \<Rightarrow> webauthn_outcome \<Rightarrow> app_state \<Rightarrow> app_state" where
  "markAttendance z now outcome s =
     (let s1 = s\<lparr>err := None, info := None, marking := False\<rparr> in
      if \<not> shotBlob s1 then s1\<lparr>err := Some SelfieRequired\<rparr>
      else
        case user s1 of
          None \<Rightarrow> s1\<lparr>err := Some TypeError\<rparr>
        | Some u \<Rightarrow>
            let cid = key_string (get_collegeId (heap s1) u) in
            if \<not> authenticateWithWebAuthn outcome then s1\<lparr>err := Some BiometricFailed\<rparr>
            else
              let day = todayISO now in
              if \<not> isWeekday z (new_Date day) then s1\<lparr>err := Some NonWorkingDayError\<rparr>
              else
                let dates = loadAttendance (attendance s1) cid in
                (if day \<notin> set dates
                 then s1\<lparr>attendance := saveAttendance (attendance s1) cid (dates @ [day])\<rparr>
                 else s1)\<lparr>info := Some InfoAttendanceMarked\<rparr>)"

section \<open>Numbers: binary64 arithmetic and \<^verbatim>\<open>toFixed(2)\<close>\<close>

text \<open>
  The counts are integers far below \<open>2 ^ 53\<close>, so their sums and differences are exact.
  The quotient and the product of the percentage are rounded to binary64: 53 significant
  bits, round to nearest, ties to even. A finite double is represented by its exact
  rational value. The exponent range is not modelled: the magnitudes that occur
  (quotients of integers below \<open>2 ^ 32\<close>, times 100) are far inside it.
\<close>

text \<open>For \<open>0 < x\<close>, the exponent \<open>e\<close> with \<open>2 ^ e \<le> x < 2 ^ (e + 1)\<close>.\<close>

definition binade :: "rat \<Rightarrow> int" where
  "binade x = (if 1 \<le> x then bitlen \<lfloor>x\<rfloor> - 1 else - bitlen (\<lceil>1 / x\<rceil> - 1))"

text \<open>Round to the nearest integer, ties to even.\<close>

definition rne :: "rat \<Rightarrow> int" where
  "rne x =
     (let f = \<lfloor>x\<rfloor>; r = x - of_int f
      in if r < 1 / 2 then f else if 1 / 2 < r then f + 1 else if even f then f else f + 1)"

definition round_double :: "rat \<Rightarrow> rat" where
  "round_double x =
     (if x = 0 then 0
      else let e = binade \<bar>x\<bar> - 52; m = rne (\<bar>x\<bar> / 2 powi e)
           in sgn x * of_int m * 2 powi e)"

definition fdiv :: "rat \<Rightarrow> rat \<Rightarrow> rat" where
  "fdiv a b = round_double (a / b)"

definition fmul :: "rat \<Rightarrow> rat \<Rightarrow> rat" where
  "fmul a b = round_double (a * b)"

definition digit_char :: "nat \<Rightarrow> char" where
  "digit_char d = char_of (48 + d)"

text \<open>The digits of the decimal representation of a natural number.\<close>

function decimal :: "nat \<Rightarrow> string" where
  "decimal n = (if n < 10 then [digit_char n] else decimal (n div 10) @ [digit_char (n mod 10)])"
  by pat_completeness auto
termination
  by (relation "measure id") auto

text \<open>
  The string \<^verbatim>\<open>toFixed(2)\<close> builds from the sign and the integer \<open>n\<close> of hundredths:
  the digits of \<open>n\<close>, padded with zeros to three digits, a point before the last two.
\<close>

definition fixed2_string :: "bool \<Rightarrow> nat \<Rightarrow> string" where
  "fixed2_string neg n =
     (let m0 = decimal n;
          m = (if length m0 \<le> 2 then replicate (3 - length m0) CHR ''0'' @ m0 else m0);
          k = length m
      in (if neg then ''-'' else []) @ take (k - 2) m @ ''.'' @ drop (k - 2) m)"

text \<open>
  \<^verbatim>\<open>x.toFixed(2)\<close> for \<open>\<bar>x\<bar> < 10 ^ 21\<close>: the sign is taken off first, then \<open>n\<close> is the
  integer for which \<open>n / 100 - \<bar>x\<bar>\<close> is closest to zero, the larger one of two.
\<close>

definition toFixed2 :: "rat \<Rightarrow> string" where
  "toFixed2 x = fixed2_string (x < 0) (nat \<lfloor>\<bar>x\<bar> * 100 + 1 / 2\<rfloor>)"

datatype js_value = JNumber rat | JString string

section \<open>Attendance statistics\<close>

text \<open>The derived values of a render, from the two memoised values.\<close>

definition presentDays :: "app_state \<Rightarrow> nat" where
  "presentDays s = length (attendanceDates s)"

definition absentDays :: "app_state \<Rightarrow> nat" where
  "absentDays s = nat (max 0 (int (workingDays s) - int (presentDays s)))"

definition percentage :: "app_state \<Rightarrow> js_value" where
  "percentage s =
     (if workingDays s = 0 then JNumber 0
      else JString (toFixed2
             (fmul (fdiv (of_int (int (presentDays s) - int (absentDays s)))
                         (of_nat (workingDays s)))
                   100)))"

text \<open>
  The percentage of the specification in exact arithmetic:
  \<open>(presentDays - absentDays) / workingDays * 100\<close>, for \<open>workingDays\<close> not zero.
\<close>

definition exact_percentage :: "nat \<Rightarrow> nat \<Rightarrow> nat \<Rightarrow> rat" where
  "exact_percentage w p a = of_int (int p - int a) / of_nat w * 100"

text \<open>
  The statistics are up to date at clock \<open>now\<close>: both memoised values are what a
  computation at \<open>now\<close> gives, as they are right after a page load.
\<close>

definition stats_fresh :: "zone \<Rightarrow> time_value \<Rightarrow> app_state \<Rightarrow> bool" where
  "stats_fresh z now s =
     (workingDays s = compute_workingDays z now (semStart s) \<and>
      attendanceDates s = compute_attendanceDates (heap s) (attendance s) (user s))"

section \<open>The component as a transition system\<close>

datatype event =
    EvUpdateField field js_string
  | EvDoLogin
  | EvStartRegister
  | EvSendOTP js_string
  | EvVerifyOTP
  | EvSetPassword webauthn_outcome
  | EvCapture
  | EvMarkAttendance webauthn_outcome
  | EvLogout
  | EvSetSemStart "iso_date option"
  | EvReload iso_date

text \<open>Which control is on screen: the login card and the setup card in the
  \<^verbatim>\<open>auth\<close> view, the attendance tabs in the \<^verbatim>\<open>app\<close> view, the logout button
  whenever a user is set.\<close>

fun enabled :: "app_state \<Rightarrow> event \<Rightarrow> bool" where
  "enabled s (EvUpdateField k v) =
     (view s = ViewAuth \<and>
      (k = FCollegeId \<or> k = FPassword \<or>
       (step s = StepRegister \<and> (k = FEmail \<or> k = FPhone)) \<or>
       (step s = StepVerify \<and> k = FOtp) \<or>
       (step s = StepSetpass \<and> k = FConfirm)))"
| "enabled s EvDoLogin = (view s = ViewAuth)"
| "enabled s EvStartRegister = (view s = ViewAuth)"
| "enabled s (EvSendOTP code) = (view s = ViewAuth \<and> step s = StepRegister)"
| "enabled s EvVerifyOTP = (view s = ViewAuth \<and> step s = StepVerify)"
| "enabled s (EvSetPassword outcome) = (view s = ViewAuth \<and> step s = StepSetpass)"
| "enabled s EvCapture = (view s = ViewApp)"
| "enabled s (EvMarkAttendance outcome) = (view s = ViewApp \<and> \<not> marking s)"
| "enabled s EvLogout = (user s \<noteq> None)"
| "enabled s (EvSetSemStart d) = (view s = ViewApp)"
| "enabled s (EvReload d) = True"

fun apply_event :: "zone \<Rightarrow> time_value \<Rightarrow> event \<Rightarrow> app_state \<Rightarrow> app_state" where
  "apply_event z now (EvUpdateField k v) s = updateField k v s"
| "apply_event z now EvDoLogin s = doLogin s"
| "apply_event z now EvStartRegister s = startRegister s"
| "apply_event z now (EvSendOTP code) s = sendOTP code s"
| "apply_event z now EvVerifyOTP s = verifyOTP s"
| "apply_event z now (EvSetPassword outcome) s = setPassword outcome s"
| "apply_event z now EvCapture s = s\<lparr>shotBlob := True\<rparr>"
| "apply_event z now (EvMarkAttendance outcome) s = markAttendance z now outcome s"
| "apply_event z now EvLogout s = logout s"
| "apply_event z now (EvSetSemStart d) s = setSemStart z now d s"
| "apply_event z now (EvReload d) s = mount z now (users s) (session s) (attendance s) d"

text \<open>
  The states the component reaches at clock \<open>now\<close>, from a browser with empty local
  storage: the clock only moves forward, and each event is one the screen offers.
\<close>

inductive reachable :: "zone \<Rightarrow> time_value \<Rightarrow> app_state \<Rightarrow> bool" for z :: zone where
  reachable_init: "reachable z now (init_state z now d)"
| reachable_wait: "reachable z now s \<Longrightarrow> now \<le> now' \<Longrightarrow> reachable z now' s"
| reachable_event: "reachable z now s \<Longrightarrow> enabled s e \<Longrightarrow> reachable z now (apply_event z now e s)"

text \<open>Running a list of events at one clock value, and whether the screen offers
  each of them in turn.\<close>

fun run :: "zone \<Rightarrow> time_value \<Rightarrow> event list \<Rightarrow> app_state \<Rightarrow> app_state" where
  "run z now [] s = s"
| "run z now (e # es) s = run z now es (apply_event z now e s)"

fun runnable :: "zone \<Rightarrow> time_value \<Rightarrow> event list \<Rightarrow> app_state \<Rightarrow> bool" where
  "runnable z now [] s = True"
| "runnable z now (e # es) s = (enabled s e \<and> runnable z now es (apply_event z now e s))"

text \<open>Every account is stored under its own college id.\<close>

definition wf_users :: "users_store \<Rightarrow> bool" where
  "wf_users us = (\<forall>k u. us k = Some u \<longrightarrow> collegeId u = Some k)"

text \<open>
  What marking attendance maintains of the ledgers: no date twice, every date one the
  week-day test accepted, none after today.
\<close>

definition ledger_inv :: "zone \<Rightarrow> time_value \<Rightarrow> attendance_store \<Rightarrow> bool" where
  "ledger_inv z now att =
     (\<forall>cid. distinct (att cid) \<and>
        (\<forall>d \<in> set (att cid). isWeekday z (new_Date d) \<and> d \<le> todayISO now))"

section \<open>Example runs\<close>

text \<open>
  1 January 2024 is day 19723 since the epoch, a Monday; 6 January 2024 is a Saturday.
  The clock values are noon and 1 pm UTC of 1 January, noon of 2 and of 3 January and
  noon of 6 January.
\<close>

definition jan_1_2024 :: iso_date where
  "jan_1_2024 = 19723"

definition monday_noon :: time_value where
  "monday_noon = 1704110400000"

definition monday_1pm :: time_value where
  "monday_1pm = 1704114000000"

definition tuesday_noon :: time_value where
  "tuesday_noon = 1704196800000"

definition wednesday_noon :: time_value where
  "wednesday_noon = 1704283200000"

definition saturday_noon :: time_value where
  "saturday_noon = 1704542400000"

text \<open>1 June 2024 is day 19875, a Saturday and the first day of its month.\<close>

definition jun_1_2024 :: iso_date where
  "jun_1_2024 = 19875"

definition jun_1_noon :: time_value where
  "jun_1_noon = 1717243200000"

text \<open>The zone of the examples, unless said otherwise: UTC.\<close>

definition utc :: zone where
  "utc = fixed_zone 0"

text \<open>
  The first-time setup of student \<open>s1\<close>, as a list of events: register, verify the
  code, type a password twice; then finish the setup, the browser returning no
  credential.
\<close>

definition register_s1 :: "event list" where
  "register_s1 =
     [EvStartRegister,
      EvUpdateField FCollegeId (str ''s1''), EvUpdateField FEmail (str ''s1@college.edu''),
      EvUpdateField FPhone (str ''5550100''), EvSendOTP (str ''123456''),
      EvUpdateField FOtp (str ''123456''), EvVerifyOTP,
      EvUpdateField FPassword (str ''secret1''), EvUpdateField FConfirm (str ''secret1'')]"

definition setup_s1 :: "event list" where
  "setup_s1 = register_s1 @ [EvSetPassword WaNull]"

definition verified_s1 :: user_fields where
  "verified_s1 = \<lparr>collegeId = Some (str ''s1''), email = Some (str ''s1@college.edu''),
     phone = Some (str ''5550100''), password = None, webauthn = False\<rparr>"

definition student_s1 :: user_fields where
  "student_s1 = verified_s1\<lparr>password := Some (str ''secret1'')\<rparr>"

text \<open>Student \<open>s1\<close> after the setup, a selfie and a mark on Monday 1 January 2024.\<close>

definition marked_monday :: app_state where
  "marked_monday =
     run utc monday_noon (setup_s1 @ [EvCapture, EvMarkAttendance WaCredential])
       (init_state utc monday_noon jan_1_2024)"

section \<open>Working days\<close>

declare workingDays_loop.simps [simp del]

lemma zone_progress:
  "local_offset z (t + utc_offset z t + msPerDay) < utc_offset z t + msPerDay"
  by transfer auto

lemma setDate_next_day_greater: "d < setDate_next_day z d"
  using zone_progress [of z d] by (simp add: setDate_next_day_def UTC_def LocalTime_def)

lemma utc_offset_fixed_zone: "utc_offset (fixed_zone tz) t = tz"
  by transfer simp

lemma local_offset_fixed_zone: "local_offset (fixed_zone tz) t = tz"
  by transfer simp

lemma setDate_next_day_fixed_zone: "setDate_next_day (fixed_zone tz) d = d + msPerDay"
  by (simp add: setDate_next_day_def UTC_def LocalTime_def utc_offset_fixed_zone
        local_offset_fixed_zone)

lemma workingDays_loop_ge: "count \<le> workingDays_loop z d end_t count"
proof (induction z d end_t count rule: workingDays_loop.induct)
  case (1 z d end_t count)
  show ?case
  proof (cases "d \<le> end_t")
    case True
    have "count \<le> (if isWeekday z d then count + 1 else count)" by simp
    also have "\<dots> \<le> workingDays_loop z (setDate_next_day z d) end_t
        (if isWeekday z d then count + 1 else count)"
      using True by (rule "1.IH")
    finally show ?thesis
      using True by (simp add: workingDays_loop.simps [of z d])
  next
    case False
    then show ?thesis by (simp add: workingDays_loop.simps [of z d])
  qed
qed

lemma workingDays_loop_mono:
  "end1 \<le> end2 \<Longrightarrow> workingDays_loop z d end1 count \<le> workingDays_loop z d end2 count"
proof (induction z d end1 count rule: workingDays_loop.induct)
  case (1 z d end1 count)
  show ?case
  proof (cases "d \<le> end1")
    case True
    then have "d \<le> end2" using "1.prems" by simp
    then show ?thesis
      using True "1.IH" [OF True "1.prems"]
      by (simp add: workingDays_loop.simps [of z d])
  next
    case False
    then have "workingDays_loop z d end1 count = count"
      by (simp add: workingDays_loop.simps [of z d])
    then show ?thesis by (simp add: workingDays_loop_ge)
  qed
qed

lemma workingDaysCount_same_day:
  "workingDaysCount z d d = (if isWeekday z (new_Date d) then 1 else 0)"
proof -
  have "\<not> setDate_next_day z (new_Date d) \<le> new_Date d"
    using setDate_next_day_greater [of "new_Date d" z] by simp
  then show ?thesis
    by (simp add: workingDaysCount_def workingDays_loop.simps [of z "new_Date d"]
          workingDays_loop.simps [of z "setDate_next_day z (new_Date d)"])
qed

text \<open>In a zone whose offset never changes, the loop counts the dates from the start
  to the end that pass the week-day test.\<close>

lemma workingDays_loop_card:
  "workingDays_loop (fixed_zone tz) (new_Date a) (new_Date b) c =
     c + card {d. a \<le> d \<and> d \<le> b \<and> isWeekday (fixed_zone tz) (new_Date d)}"
proof (induction "nat (b + 1 - a)" arbitrary: a c)
  case 0
  then have "b < a" by simp
  then have "{d. a \<le> d \<and> d \<le> b \<and> isWeekday (fixed_zone tz) (new_Date d)} = {}" by auto
  moreover have "\<not> new_Date a \<le> new_Date b"
    using \<open>b < a\<close> by (simp add: new_Date_def msPerDay_def)
  ultimately show ?case
    by (simp only: workingDays_loop.simps [of _ "new_Date a"] if_False card.empty add_0_right)
next
  case (Suc n)
  then have le: "a \<le> b" and n: "n = nat (b + 1 - (a + 1))" by simp_all
  have next_day: "setDate_next_day (fixed_zone tz) (new_Date a) = new_Date (a + 1)"
    by (simp add: setDate_next_day_fixed_zone new_Date_def algebra_simps)
  have le': "new_Date a \<le> new_Date b"
    using le by (simp add: new_Date_def msPerDay_def)
  let ?S = "\<lambda>a. {d. a \<le> d \<and> d \<le> b \<and> isWeekday (fixed_zone tz) (new_Date d)}"
  have fin: "finite (?S (a + 1))"
    by (rule finite_subset [of _ "{a + 1..b}"]) auto
  have eq: "{d. a \<le> d \<and> d \<le> b \<and> P d} =
      (if P a then insert a {d. a + 1 \<le> d \<and> d \<le> b \<and> P d}
       else {d. a + 1 \<le> d \<and> d \<le> b \<and> P d})" for P :: "int \<Rightarrow> bool"
  proof -
    have "a \<le> d \<longleftrightarrow> d = a \<or> a + 1 \<le> d" for d by arith
    then show ?thesis using le by auto
  qed
  have notin: "a \<notin> ?S (a + 1)" by simp
  have "workingDays_loop (fixed_zone tz) (new_Date a) (new_Date b) c =
        workingDays_loop (fixed_zone tz) (new_Date (a + 1)) (new_Date b)
          (if isWeekday (fixed_zone tz) (new_Date a) then c + 1 else c)"
    using le' next_day by (simp add: workingDays_loop.simps [of _ "new_Date a"])
  also have "\<dots> = (if isWeekday (fixed_zone tz) (new_Date a) then c + 1 else c) + card (?S (a + 1))"
    using Suc.hyps(1) [OF n] .
  also have "\<dots> = c + card (?S a)"
    using fin notin by (simp add: eq [of "\<lambda>d. isWeekday (fixed_zone tz) (new_Date d)"])
  finally show ?case .
qed

lemma workingDaysCount_card:
  "workingDaysCount (fixed_zone tz) a b =
     card {d. a \<le> d \<and> d \<le> b \<and> isWeekday (fixed_zone tz) (new_Date d)}"
  by (simp add: workingDaysCount_def workingDays_loop_card)

lemma finite_working_dates:
  "finite {d. a \<le> d \<and> d \<le> b \<and> isWeekday z (new_Date d)}"
  by (rule finite_subset [of _ "{a..b}"]) auto

lemma workingDaysCount_empty: "b < a \<Longrightarrow> workingDaysCount z a b = 0"
proof -
  assume "b < a"
  then have "\<not> new_Date a \<le> new_Date b" by (simp add: new_Date_def msPerDay_def)
  then show ?thesis
    by (simp add: workingDaysCount_def workingDays_loop.simps [of z "new_Date a"])
qed

text \<open>
  Where the offset in force at UTC midnight of a date is from 0 to under 24 hours (a
  zone at or east of UTC), the local day of that instant is the calendar date itself,
  and the week-day test is the calendar's.
\<close>

lemma getDay_east:
  "0 \<le> utc_offset z (new_Date d) \<Longrightarrow> utc_offset z (new_Date d) < msPerDay \<Longrightarrow>
   getDay z (new_Date d) = weekday_of_date d"
proof -
  assume a: "0 \<le> utc_offset z (new_Date d)" "utc_offset z (new_Date d) < msPerDay"
  define off where "off = utc_offset z (new_Date d)"
  have "(d * msPerDay + off) div msPerDay = d"
    using a by (simp add: off_def msPerDay_def div_pos_pos_trivial)
  then have "LocalTime z (new_Date d) div msPerDay = d"
    by (simp add: LocalTime_def off_def new_Date_def)
  then show ?thesis
    by (simp add: getDay_def weekday_of_date_def)
qed

lemma isWeekday_east:
  "0 \<le> utc_offset z (new_Date d) \<Longrightarrow> utc_offset z (new_Date d) < msPerDay \<Longrightarrow>
   isWeekday z (new_Date d) \<longleftrightarrow> weekday_of_date d \<noteq> 0 \<and> weekday_of_date d \<noteq> 6"
  by (simp add: isWeekday_def getDay_east Let_def)

lemma workingDaysCount_same_day_east:
  "0 \<le> utc_offset z (new_Date d) \<Longrightarrow> utc_offset z (new_Date d) < msPerDay \<Longrightarrow>
   workingDaysCount z d d = (if weekday_of_date d \<in> {1, 2, 3, 4, 5} then 1 else 0)"
proof -
  assume a: "0 \<le> utc_offset z (new_Date d)" "utc_offset z (new_Date d) < msPerDay"
  have "0 \<le> weekday_of_date d" "weekday_of_date d < 7"
    by (simp_all add: weekday_of_date_def)
  then have "weekday_of_date d \<in> {1, 2, 3, 4, 5} \<longleftrightarrow>
      weekday_of_date d \<noteq> 0 \<and> weekday_of_date d \<noteq> 6"
    by auto
  then show ?thesis
    using a by (simp only: workingDaysCount_same_day isWeekday_east)
qed

text \<open>
  Across the end of daylight saving time the loop keeps the local time of day, passes
  the end date an hour early and leaves the last day out: from Monday 21 October 2024
  to Monday 28 October it counts five days, from Friday 25 October one.
\<close>

lemma workingDaysCount_berlin_autumn_2024:
  "workingDaysCount berlin_autumn_2024 20017 20024 = 5"
  "workingDaysCount berlin_autumn_2024 20021 20024 = 1"
  by code_simp+

text \<open>
  C6. \<^verbatim>\<open>workingDays(start, start)\<close> is 1 when \<open>start\<close> falls on Monday to Friday and 0
  when it falls on Saturday or Sunday. The code parses the date as UTC midnight and reads
  the week day in local time, so west of UTC it tests the day before: at UTC-5,
  Monday 1 January 2024 counts 0 working days and Saturday 6 January 2024 counts 1.
  (\<open>workingDaysCount_same_day_east\<close> above is the claim for the zones where it holds.)
\<close>

theorem workingDaysCount_west_of_UTC:
  "weekday_of_date 19723 = 1 \<and> workingDaysCount (fixed_zone (- 18000000)) 19723 19723 = 0 \<and>
   weekday_of_date 19728 = 6 \<and> workingDaysCount (fixed_zone (- 18000000)) 19728 19728 = 1"
  by (simp add: workingDaysCount_same_day weekday_of_date_def isWeekday_def getDay_def
        LocalTime_def utc_offset_fixed_zone new_Date_def msPerDay_def)

text \<open>
  C7. For a fixed start date, the working-day count does not decrease as the end date
  increases: \<open>end1 \<le> end2\<close> gives
  \<open>workingDays(start, end1) \<le> workingDays(start, end2)\<close>, in every time zone,
  whether or not its offset changes on the way.
\<close>

theorem workingDaysCount_mono:
  "end1 \<le> end2 \<Longrightarrow> workingDaysCount z start end1 \<le> workingDaysCount z start end2"
  unfolding workingDaysCount_def
  by (rule workingDays_loop_mono) (simp add: new_Date_def msPerDay_def)

text \<open>Two end dates around the end of daylight saving time.\<close>

theorem workingDaysCount_mono_witness:
  "(20023::int) \<le> 20024 \<and>
   workingDaysCount berlin_autumn_2024 20017 20023 \<le> workingDaysCount berlin_autumn_2024 20017 20024"
  using workingDaysCount_mono [of 20023 20024 berlin_autumn_2024 20017] by simp

section \<open>Invariants of the reachable states\<close>

lemmas op_defs = empty_form_def updateField_def doLogin_def startRegister_def
  sendOTP_def verifyOTP_def setPassword_def logout_def markAttendance_def getUser_def upsertUser_def
  createWebAuthnCredential_def authenticateWithWebAuthn_def loadAttendance_def saveAttendance_def
  no_password_def setUser_def setSemStart_def compute_attendanceDates_def get_collegeId_def
  get_password_def own_fields_def key_string_def stored_value_def inherited_property_def
  truthy_string_def function_names_def no_fields_def pristine_heap_def str_def Let_def

lemmas clock_defs = jan_1_2024_def monday_noon_def monday_1pm_def tuesday_noon_def
  wednesday_noon_def saturday_noon_def jun_1_2024_def jun_1_noon_def todayISO_def new_Date_def
  msPerDay_def getDay_def LocalTime_def isWeekday_def weekday_of_date_def utc_def
  utc_offset_fixed_zone

lemma run_append: "run z now (es @ es') s = run z now es' (run z now es s)"
  by (induction es arbitrary: s) simp_all

lemma reachable_run:
  "reachable z now s \<Longrightarrow> runnable z now es s \<Longrightarrow> reachable z now (run z now es s)"
  by (induction es arbitrary: s) (auto intro: reachable_event)

text \<open>
  Accounts stay under their own college id as long as the college id of the form does
  not name a property inherited from \<^verbatim>\<open>Object.prototype\<close>.
\<close>

lemma wf_users_upsert_Plain:
  "wf_users us \<Longrightarrow> collegeId f \<noteq> None \<Longrightarrow> wf_users (upsertUser h us (Plain f))"
  by (auto simp: wf_users_def upsertUser_def get_collegeId_def own_fields_def key_string_def
        stored_value_def Let_def)

lemma getUser_Plain_wf:
  "wf_users us \<Longrightarrow> getUser h us k = Some (Plain f) \<Longrightarrow> inherited_property h k = None \<Longrightarrow>
   us k = Some f \<and> collegeId f = Some k"
  by (auto simp: wf_users_def getUser_def split: option.splits)


lemma getUser_not_inherited:
  "inherited_property h k = None \<Longrightarrow> getUser h us k = (case us k of None \<Rightarrow> None | Some f \<Rightarrow> Some (Plain f))"
  by (simp add: getUser_def split: option.splits)

lemma wf_users_verifyOTP:
  assumes "wf_users (users s)" and "inherited_property (heap s) (form_collegeId (form s)) = None"
  shows "wf_users (users (verifyOTP s))"
  using assms
  by (auto simp: verifyOTP_def Let_def getUser_not_inherited no_fields_def
        intro!: wf_users_upsert_Plain split: option.splits)
     (auto simp: wf_users_def)

lemma wf_users_createWebAuthnCredential:
  assumes "wf_users us" and "inherited_property h k = None"
  shows "wf_users (fst (snd (createWebAuthnCredential outcome h us (Some k))))"
  using assms
  by (auto simp: createWebAuthnCredential_def key_string_def getUser_not_inherited
        intro!: wf_users_upsert_Plain split: option.splits)
     (auto simp: wf_users_def)

lemma heap_createWebAuthnCredential_Plain:
  "inherited_property h k = None \<Longrightarrow> fst (createWebAuthnCredential outcome h us (Some k)) = h"
  by (auto simp: createWebAuthnCredential_def key_string_def getUser_not_inherited
        split: option.splits)

lemma wf_users_setPassword:
  assumes "wf_users (users s)" and "inherited_property (heap s) (form_collegeId (form s)) = None"
  shows "wf_users (users (setPassword outcome s))"
proof -
  let ?k = "form_collegeId (form s)"
  let ?pw = "form_password (form s)"
  show ?thesis
  proof (cases "?pw = [] \<or> length ?pw < 6 \<or> ?pw \<noteq> form_confirm (form s) \<or> users s ?k = None")
    case True
    then show ?thesis
      using assms by (auto simp: setPassword_def Let_def getUser_not_inherited)
  next
    case False
    then obtain u where u: "users s ?k = Some u" by auto
    from False have f: "?pw \<noteq> []" "\<not> length ?pw < 6" "form_confirm (form s) = ?pw"
      by auto
    from u have c: "collegeId u = Some ?k" using assms(1) by (simp add: wf_users_def)
    let ?u = "u\<lparr>password := Some ?pw\<rparr>"
    have w1: "wf_users (upsertUser (heap s) (users s) (Plain ?u))"
      using assms(1) c by (intro wf_users_upsert_Plain) simp_all
    have g: "get_collegeId (heap s) (Plain ?u) = Some ?k"
      using c by (simp add: get_collegeId_def own_fields_def)
    have "users (setPassword outcome s) =
        fst (snd (createWebAuthnCredential outcome (heap s)
          (upsertUser (heap s) (users s) (Plain ?u)) (Some ?k)))"
      using u assms(2) g
      by (simp add: setPassword_def Let_def getUser_not_inherited setUser_def case_prod_beta f)
    then show ?thesis
      using wf_users_createWebAuthnCredential [OF w1 assms(2), of outcome] by simp
  qed
qed

lemma todayISO_mono: "now \<le> now' \<Longrightarrow> todayISO now \<le> todayISO now'"
  by (simp add: todayISO_def msPerDay_def zdiv_mono1)

lemma ledger_inv_markAttendance:
  assumes "ledger_inv z now (attendance s)"
  shows "ledger_inv z now (attendance (markAttendance z now outcome s))"
proof -
  have app: "ledger_inv z now ((attendance s)(cid := attendance s cid @ [todayISO now]))"
    if "todayISO now \<notin> set (attendance s cid)" and "isWeekday z (new_Date (todayISO now))" for cid
    using assms that by (auto simp: ledger_inv_def)
  show ?thesis
    using assms app
    by (auto simp: markAttendance_def Let_def loadAttendance_def saveAttendance_def
          split: option.splits)
qed

lemma attendance_setUser [simp]: "attendance (setUser u s) = attendance s"
  by (simp add: setUser_def)

lemma attendance_mount [simp]: "attendance (mount z now us sess att d) = att"
  by (simp add: mount_def Let_def split: option.splits)

lemma attendance_apply_event_inv:
  "ledger_inv z now (attendance s) \<Longrightarrow> ledger_inv z now (attendance (apply_event z now e s))"
proof (cases e)
  case (EvMarkAttendance outcome)
  assume "ledger_inv z now (attendance s)"
  then show ?thesis using EvMarkAttendance by (simp add: ledger_inv_markAttendance)
next
  case (EvSetPassword outcome)
  assume "ledger_inv z now (attendance s)"
  then show ?thesis using EvSetPassword
    by (auto simp: setPassword_def Let_def split: option.splits prod.splits)
next
  case EvVerifyOTP
  assume "ledger_inv z now (attendance s)"
  then show ?thesis using EvVerifyOTP
    by (auto simp: verifyOTP_def Let_def split: option.splits prod.splits)
next
  case EvDoLogin
  assume "ledger_inv z now (attendance s)"
  then show ?thesis using EvDoLogin
    by (auto simp: doLogin_def Let_def split: option.splits)
qed (simp_all add: updateField_def startRegister_def sendOTP_def
      logout_def setSemStart_def Let_def split: field.splits)

lemma reachable_ledger_inv: "reachable z now s \<Longrightarrow> ledger_inv z now (attendance s)"
proof (induction rule: reachable.induct)
  case (reachable_init now d)
  show ?case by (simp add: init_state_def ledger_inv_def)
next
  case (reachable_wait now s now')
  then show ?case
    using todayISO_mono [of now now'] by (fastforce simp: ledger_inv_def)
next
  case (reachable_event now s e)
  then show ?case by (simp add: attendance_apply_event_inv)
qed

text \<open>Right after a page load the statistics are up to date.\<close>

lemma stats_fresh_mount: "stats_fresh z now (mount z now us sess att d)"
  by (auto simp: stats_fresh_def mount_def Let_def setUser_def compute_attendanceDates_def
        split: option.splits)

section \<open>The example runs, evaluated\<close>

lemma register_s1_state:
  "run z now register_s1 (init_state z now d) =
     \<lparr>users = [str ''s1'' \<mapsto> verified_s1],
      session = None, attendance = (\<lambda>cid. []), heap = pristine_heap,
      view = ViewAuth, step = StepSetpass,
      form = \<lparr>form_collegeId = str ''s1'', form_email = str ''s1@college.edu'',
               form_phone = str ''5550100'', form_otp = str ''123456'',
               form_password = str ''secret1'', form_confirm = str ''secret1''\<rparr>,
      info = Some InfoOtpVerified, err = None, otpSent = True, otpCode = str ''123456'',
      user = None, marking = False, shotBlob = False, waStatus = None, semStart = Some d,
      workingDays = workingDaysCount z d (todayISO now), attendanceDates = []\<rparr>"
  by (simp add: register_s1_def init_state_def mount_def compute_workingDays_def verified_s1_def
        op_defs)

lemma register_s1_runnable: "runnable z now register_s1 (init_state z now d)"
  by (simp add: register_s1_def init_state_def mount_def op_defs)

lemma reachable_register_s1: "reachable z now (run z now register_s1 (init_state z now d))"
  by (rule reachable_run [OF reachable_init register_s1_runnable])

lemma reachable_after_register_s1:
  "runnable z now es (run z now register_s1 (init_state z now d)) \<Longrightarrow>
   reachable z now (run z now (register_s1 @ es) (init_state z now d))"
  unfolding run_append by (rule reachable_run [OF reachable_register_s1])

lemma setup_s1_state:
  "run z now setup_s1 (init_state z now d) =
     \<lparr>users = [str ''s1'' \<mapsto> student_s1],
      session = Some (str ''s1''), attendance = (\<lambda>cid. []), heap = pristine_heap,
      view = ViewApp, step = StepSetpass,
      form = \<lparr>form_collegeId = str ''s1'', form_email = str ''s1@college.edu'',
               form_phone = str ''5550100'', form_otp = str ''123456'',
               form_password = str ''secret1'', form_confirm = str ''secret1''\<rparr>,
      info = Some InfoPasswordSet, err = None, otpSent = True, otpCode = str ''123456'',
      user = Some (Plain student_s1),
      marking = False, shotBlob = False, waStatus = Some WaSkipped, semStart = Some d,
      workingDays = workingDaysCount z d (todayISO now), attendanceDates = []\<rparr>"
  by (simp add: setup_s1_def run_append register_s1_state student_s1_def verified_s1_def op_defs)

lemma reachable_setup_s1: "reachable z now (run z now setup_s1 (init_state z now d))"
  unfolding setup_s1_def
  by (rule reachable_after_register_s1) (simp add: register_s1_state)

lemma reachable_after_setup_s1:
  "runnable z now es (run z now setup_s1 (init_state z now d)) \<Longrightarrow>
   reachable z now (run z now (setup_s1 @ es) (init_state z now d))"
  unfolding run_append by (rule reachable_run [OF reachable_setup_s1])

lemma marked_monday_state:
  "marked_monday =
     \<lparr>users = [str ''s1'' \<mapsto> student_s1],
      session = Some (str ''s1''), attendance = (\<lambda>cid. [])(str ''s1'' := [19723]),
      heap = pristine_heap, view = ViewApp, step = StepSetpass,
      form = \<lparr>form_collegeId = str ''s1'', form_email = str ''s1@college.edu'',
               form_phone = str ''5550100'', form_otp = str ''123456'',
               form_password = str ''secret1'', form_confirm = str ''secret1''\<rparr>,
      info = Some InfoAttendanceMarked, err = None, otpSent = True, otpCode = str ''123456'',
      user = Some (Plain student_s1),
      marking = False, shotBlob = True, waStatus = Some WaSkipped, semStart = Some 19723,
      workingDays = 1, attendanceDates = []\<rparr>"
proof -
  have "workingDaysCount utc jan_1_2024 (todayISO monday_noon) = 1"
    by (simp add: workingDaysCount_same_day clock_defs)
  then show ?thesis
    by (simp add: marked_monday_def run_append setup_s1_state student_s1_def verified_s1_def
          op_defs clock_defs)
qed

lemma reachable_marked_monday: "reachable utc monday_noon marked_monday"
  unfolding marked_monday_def
  by (rule reachable_after_setup_s1) (simp add: setup_s1_state op_defs)

lemma wf_users_s1: "wf_users [str ''s1'' \<mapsto> student_s1]" "wf_users [str ''s1'' \<mapsto> verified_s1]"
  by (simp_all add: wf_users_def student_s1_def verified_s1_def)

lemma not_inherited_s1: "inherited_property h (str ''s1'') = None"
  by (simp add: inherited_property_def function_names_def str_def)

section \<open>Login\<close>

text \<open>
  What the lookup does for a name that \<^verbatim>\<open>users\<close> inherits: with no account stored
  at all, a login as \<open>constructor\<close> finds the built-in function and fails with
  \<open>NoPasswordSetError\<close>, and a login as NBSP + \<open>s1\<close> is a login as \<open>s1\<close>.
\<close>

lemma doLogin_inherited_name:
  "err (doLogin (updateField FCollegeId (str ''constructor'') (init_state z now d))) =
     Some NoPasswordSetError"
  by (simp add: init_state_def mount_def trim_def isWhiteSpace_def op_defs)





section \<open>Setting the password\<close>

text \<open>
  For a name that \<^verbatim>\<open>users\<close> inherits the guard \<^verbatim>\<open>if (!u)\<close> passes although no
  account exists: with the id \<open>constructor\<close> the setup ends in the app view, with
  the session \<open>undefined\<close> and nothing stored.
\<close>

lemma setPassword_inherited_name:
  "err (setPassword WaNull (updateField FCollegeId (str ''constructor'')
          (run z now register_s1 (init_state z now d)))) = None \<and>
   view (setPassword WaNull (updateField FCollegeId (str ''constructor'')
          (run z now register_s1 (init_state z now d)))) = ViewApp \<and>
   session (setPassword WaNull (updateField FCollegeId (str ''constructor'')
          (run z now register_s1 (init_state z now d)))) = Some (str ''undefined'') \<and>
   users (setPassword WaNull (updateField FCollegeId (str ''constructor'')
          (run z now register_s1 (init_state z now d)))) = [str ''s1'' \<mapsto> verified_s1]"
  by (simp add: register_s1_state verified_s1_def op_defs)

text \<open>
  C9, as the code has it. In a store where every account is filed under its own
  college id, and for a college id that does not name a property inherited from
  \<^verbatim>\<open>Object.prototype\<close>, \<^verbatim>\<open>setPassword\<close> fails with \<open>WeakPasswordError\<close> when the
  password is shorter than 6 characters, otherwise with \<open>MismatchError\<close> when password
  and confirmation differ, otherwise with "User not found during setup" when no account
  is stored under the college id (in each case storing nothing and leaving the session
  as it was). Otherwise it stores the password on the account, changing nothing else in
  the store but the biometric flag of that account when the enrolment succeeds, and
  establishes the session, whatever the outcome of the enrolment.
\<close>

theorem setPassword_result:
  assumes "wf_users (users s)"
    and "inherited_property (heap s) (form_collegeId (form s)) = None"
  shows "if length (form_password (form s)) < 6
         then err (setPassword outcome s) = Some WeakPasswordError \<and>
              users (setPassword outcome s) = users s \<and>
              session (setPassword outcome s) = session s
         else if form_password (form s) \<noteq> form_confirm (form s)
         then err (setPassword outcome s) = Some MismatchError \<and>
              users (setPassword outcome s) = users s \<and>
              session (setPassword outcome s) = session s
         else (case users s (form_collegeId (form s)) of
                 None \<Rightarrow>
                   err (setPassword outcome s) = Some UserNotFoundDuringSetup \<and>
                   users (setPassword outcome s) = users s \<and>
                   session (setPassword outcome s) = session s
               | Some u \<Rightarrow>
                   err (setPassword outcome s) = None \<and>
                   users (setPassword outcome s) =
                     (users s)(form_collegeId (form s) \<mapsto>
                        (if outcome = WaCredential
                         then u\<lparr>password := Some (form_password (form s)), webauthn := True\<rparr>
                         else u\<lparr>password := Some (form_password (form s))\<rparr>)) \<and>
                   user (setPassword outcome s) =
                     Some (Plain (u\<lparr>password := Some (form_password (form s))\<rparr>)) \<and>
                   session (setPassword outcome s) = Some (form_collegeId (form s)) \<and>
                   view (setPassword outcome s) = ViewApp)"
proof -
  let ?k = "form_collegeId (form s)"
  let ?pw = "form_password (form s)"
  consider (weak) "length ?pw < 6"
    | (mismatch) "\<not> length ?pw < 6" "?pw \<noteq> form_confirm (form s)"
    | (missing) "\<not> length ?pw < 6" "form_confirm (form s) = ?pw" "users s ?k = None"
    | (found) u where "\<not> length ?pw < 6" "form_confirm (form s) = ?pw" "users s ?k = Some u"
    by (cases "users s ?k") fastforce+
  then show ?thesis
  proof cases
    case weak
    then show ?thesis by (auto simp: setPassword_def Let_def)
  next
    case mismatch
    then show ?thesis by (auto simp: setPassword_def Let_def)
  next
    case missing
    then show ?thesis
      using assms(2) by (auto simp: setPassword_def Let_def getUser_not_inherited)
  next
    case found
    have c: "collegeId u = Some ?k" using found(3) assms(1) by (simp add: wf_users_def)
    let ?u = "u\<lparr>password := Some ?pw\<rparr>"
    have g: "get_collegeId h (Plain ?u) = Some ?k" for h
      using c by (simp add: get_collegeId_def own_fields_def)
    have up: "upsertUser (heap s) (users s) (Plain ?u) = (users s)(?k \<mapsto> ?u)"
      using found(3) by (simp add: upsertUser_def g key_string_def stored_value_def)
    have cw: "createWebAuthnCredential outcome (heap s) ((users s)(?k \<mapsto> ?u)) (Some ?k) =
        (heap s,
         (users s)(?k \<mapsto> (if outcome = WaCredential then ?u\<lparr>webauthn := True\<rparr> else ?u)),
         outcome = WaCredential)"
      using c
      by (simp add: createWebAuthnCredential_def key_string_def getUser_def upsertUser_def
            get_collegeId_def own_fields_def stored_value_def)
    have ne: "?pw \<noteq> []" using found(1) by auto
    show ?thesis
      using found assms(2) ne
      by (simp add: setPassword_def Let_def getUser_not_inherited g up cw setUser_def
            key_string_def)
  qed
qed

text \<open>Student \<open>s1\<close> finishes the setup while the browser's WebAuthn call throws.\<close>

theorem setPassword_result_witness:
  "wf_users (users (run utc monday_noon register_s1 (init_state utc monday_noon jan_1_2024))) \<and>
   inherited_property (heap (run utc monday_noon register_s1 (init_state utc monday_noon jan_1_2024)))
     (str ''s1'') = None \<and>
   err (setPassword WaThrows (run utc monday_noon register_s1 (init_state utc monday_noon jan_1_2024)))
     = None \<and>
   users (setPassword WaThrows (run utc monday_noon register_s1 (init_state utc monday_noon jan_1_2024)))
     = [str ''s1'' \<mapsto> student_s1] \<and>
   session (setPassword WaThrows (run utc monday_noon register_s1 (init_state utc monday_noon jan_1_2024)))
     = Some (str ''s1'')"
proof -
  define s where "s = run utc monday_noon register_s1 (init_state utc monday_noon jan_1_2024)"
  have st: "users s = [str ''s1'' \<mapsto> verified_s1]"
    "form_password (form s) = str ''secret1''" "form_confirm (form s) = str ''secret1''"
    "form_collegeId (form s) = str ''s1''"
    by (simp_all add: s_def register_s1_state)
  have wf: "wf_users (users s)" by (simp add: st wf_users_s1)
  have ni: "inherited_property (heap s) (form_collegeId (form s)) = None"
    by (simp add: st not_inherited_s1)
  have len: "\<not> length (str ''secret1'') < 6" by (simp add: str_def)
  have "wf_users (users s) \<and> inherited_property (heap s) (str ''s1'') = None \<and>
    err (setPassword WaThrows s) = None \<and>
    users (setPassword WaThrows s) = [str ''s1'' \<mapsto> student_s1] \<and>
    session (setPassword WaThrows s) = Some (str ''s1'')"
    using setPassword_result [OF wf ni, of WaThrows] wf ni
    by (simp add: st len student_s1_def)
  then show ?thesis unfolding s_def .
qed

text \<open>
  The claim as stated fails when the college id field (still on screen, in the login
  card) is changed to an unregistered id before the setup is finished: the password is
  long enough and confirmed, yet nothing is stored and no session is established.
\<close>

theorem setPassword_unregistered_collegeId:
  "reachable utc monday_noon
     (run utc monday_noon (register_s1 @ [EvUpdateField FCollegeId (str ''s2'')])
        (init_state utc monday_noon jan_1_2024)) \<and>
   enabled
     (run utc monday_noon (register_s1 @ [EvUpdateField FCollegeId (str ''s2'')])
        (init_state utc monday_noon jan_1_2024))
     (EvSetPassword WaCredential) \<and>
   length (form_password (form
     (run utc monday_noon (register_s1 @ [EvUpdateField FCollegeId (str ''s2'')])
        (init_state utc monday_noon jan_1_2024)))) = 7 \<and>
   form_password (form
     (run utc monday_noon (register_s1 @ [EvUpdateField FCollegeId (str ''s2'')])
        (init_state utc monday_noon jan_1_2024))) =
   form_confirm (form
     (run utc monday_noon (register_s1 @ [EvUpdateField FCollegeId (str ''s2'')])
        (init_state utc monday_noon jan_1_2024))) \<and>
   err (setPassword WaCredential
     (run utc monday_noon (register_s1 @ [EvUpdateField FCollegeId (str ''s2'')])
        (init_state utc monday_noon jan_1_2024))) =
     Some UserNotFoundDuringSetup \<and>
   users (setPassword WaCredential
     (run utc monday_noon (register_s1 @ [EvUpdateField FCollegeId (str ''s2'')])
        (init_state utc monday_noon jan_1_2024))) = [str ''s1'' \<mapsto> verified_s1] \<and>
   session (setPassword WaCredential
     (run utc monday_noon (register_s1 @ [EvUpdateField FCollegeId (str ''s2'')])
        (init_state utc monday_noon jan_1_2024))) = None"
proof -
  let ?es = "[EvUpdateField FCollegeId (str ''s2'')]"
  have "runnable utc monday_noon ?es
      (run utc monday_noon register_s1 (init_state utc monday_noon jan_1_2024))"
    by (simp add: register_s1_state op_defs)
  then have "reachable utc monday_noon
      (run utc monday_noon (register_s1 @ ?es) (init_state utc monday_noon jan_1_2024))"
    by (rule reachable_after_register_s1)
  then show ?thesis
    by (simp add: run_append register_s1_state op_defs)
qed

section \<open>Verifying the code\<close>



section \<open>Marking attendance\<close>

text \<open>
  C3, as the code has it. For a logged-in user, \<^verbatim>\<open>markAttendance\<close> first fails with
  an \<open>AuthenticationRequiredError\<close> when no selfie has been captured or the biometric
  assertion does not succeed; otherwise it fails with \<open>NonWorkingDayError\<close> when
  today (the UTC date) is a Saturday or Sunday; otherwise it appends today's date to the
  user's ledger if it is not there yet. A failure leaves the ledgers as they were.
  Stated for the time zones at or east of UTC (an offset from 0 to under 24 hours at
  UTC midnight of today), where the code's week-day test is the calendar's (see C6 for
  the others).
\<close>

theorem markAttendance_result:
  assumes "0 \<le> utc_offset z (new_Date (todayISO now))"
    and "utc_offset z (new_Date (todayISO now)) < msPerDay"
    and "user s = Some u"
  shows "if \<not> shotBlob s \<or> outcome \<noteq> WaCredential
         then (\<exists>e. err (markAttendance z now outcome s) = Some e \<and>
                   isAuthenticationRequiredError e) \<and>
              attendance (markAttendance z now outcome s) = attendance s
         else if weekday_of_date (todayISO now) = 6 \<or> weekday_of_date (todayISO now) = 0
         then err (markAttendance z now outcome s) = Some NonWorkingDayError \<and>
              attendance (markAttendance z now outcome s) = attendance s
         else err (markAttendance z now outcome s) = None \<and>
              attendance (markAttendance z now outcome s) =
                (attendance s)(key_string (get_collegeId (heap s) u) :=
                   (if todayISO now \<in> set (attendance s (key_string (get_collegeId (heap s) u)))
                    then attendance s (key_string (get_collegeId (heap s) u))
                    else attendance s (key_string (get_collegeId (heap s) u)) @ [todayISO now]))"
  using assms
  by (auto simp: markAttendance_def Let_def isWeekday_east isAuthenticationRequiredError_def
        authenticateWithWebAuthn_def loadAttendance_def saveAttendance_def)

text \<open>Student \<open>s1\<close> captures a selfie and marks attendance on Monday 1 January 2024.\<close>

theorem markAttendance_result_witness:
  "(0::int) \<le> utc_offset utc (new_Date (todayISO monday_noon)) \<and>
   utc_offset utc (new_Date (todayISO monday_noon)) < msPerDay \<and>
   user (run utc monday_noon (setup_s1 @ [EvCapture]) (init_state utc monday_noon jan_1_2024)) =
     Some (Plain student_s1) \<and>
   err (markAttendance utc monday_noon WaCredential
          (run utc monday_noon (setup_s1 @ [EvCapture]) (init_state utc monday_noon jan_1_2024)))
     = None \<and>
   attendance (markAttendance utc monday_noon WaCredential
          (run utc monday_noon (setup_s1 @ [EvCapture]) (init_state utc monday_noon jan_1_2024)))
     (str ''s1'') = [19723]"
proof -
  define s where
    "s = run utc monday_noon (setup_s1 @ [EvCapture]) (init_state utc monday_noon jan_1_2024)"
  have u: "user s = Some (Plain student_s1)" by (simp add: s_def run_append setup_s1_state)
  have tz: "(0::int) \<le> utc_offset utc (new_Date (todayISO monday_noon))"
    "utc_offset utc (new_Date (todayISO monday_noon)) < msPerDay"
    by (simp_all add: utc_def utc_offset_fixed_zone msPerDay_def)
  have st: "shotBlob s" "attendance s = (\<lambda>cid. [])" "heap s = pristine_heap"
    "key_string (get_collegeId pristine_heap (Plain student_s1)) = str ''s1''"
    by (simp_all add: s_def run_append setup_s1_state student_s1_def verified_s1_def
          get_collegeId_def own_fields_def key_string_def)
  have day: "todayISO monday_noon = 19723" "weekday_of_date 19723 = 1"
    by (simp_all add: clock_defs)
  have "(0::int) \<le> utc_offset utc (new_Date (todayISO monday_noon)) \<and>
    utc_offset utc (new_Date (todayISO monday_noon)) < msPerDay \<and>
    user s = Some (Plain student_s1) \<and>
    err (markAttendance utc monday_noon WaCredential s) = None \<and>
    attendance (markAttendance utc monday_noon WaCredential s) (str ''s1'') = [19723]"
    using markAttendance_result [OF tz u, of WaCredential] u tz
    by (simp add: st day)
  then show ?thesis unfolding s_def .
qed

text \<open>
  The claim as stated fails on a Saturday when no selfie has been captured: the error
  is the one of the missing confirmation, not \<open>NonWorkingDayError\<close>.
\<close>

theorem markAttendance_saturday_without_selfie:
  "reachable utc saturday_noon (run utc saturday_noon setup_s1 (init_state utc saturday_noon jan_1_2024)) \<and>
   user (run utc saturday_noon setup_s1 (init_state utc saturday_noon jan_1_2024)) =
     Some (Plain student_s1) \<and>
   weekday_of_date (todayISO saturday_noon) = 6 \<and>
   err (markAttendance utc saturday_noon WaCredential
          (run utc saturday_noon setup_s1 (init_state utc saturday_noon jan_1_2024))) =
     Some SelfieRequired \<and>
   err (markAttendance utc saturday_noon WaCredential
          (run utc saturday_noon setup_s1 (init_state utc saturday_noon jan_1_2024))) \<noteq>
     Some NonWorkingDayError"
  using reachable_setup_s1 [of utc saturday_noon jan_1_2024]
  by (simp add: setup_s1_state markAttendance_def Let_def saturday_noon_def todayISO_def
        msPerDay_def weekday_of_date_def)

text \<open>
  C4. Marking attendance twice on the same day (same time zone, same answer of the
  browser) yields the same state, and so the same ledger, as marking it once.
\<close>

theorem markAttendance_idempotent:
  "todayISO now' = todayISO now \<Longrightarrow>
   markAttendance z now' outcome (markAttendance z now outcome s) =
   markAttendance z now outcome s"
  by (auto simp: markAttendance_def Let_def loadAttendance_def saveAttendance_def
        split: option.splits)

theorem markAttendance_idempotent_witness:
  "todayISO monday_1pm = todayISO monday_noon \<and>
   markAttendance utc monday_1pm WaCredential
     (markAttendance utc monday_noon WaCredential
        (run utc monday_noon (setup_s1 @ [EvCapture]) (init_state utc monday_noon jan_1_2024))) =
   markAttendance utc monday_noon WaCredential
     (run utc monday_noon (setup_s1 @ [EvCapture]) (init_state utc monday_noon jan_1_2024)) \<and>
   attendance (markAttendance utc monday_noon WaCredential
     (run utc monday_noon (setup_s1 @ [EvCapture]) (init_state utc monday_noon jan_1_2024)))
     (str ''s1'') = [19723]"
proof -
  have day: "todayISO monday_1pm = todayISO monday_noon"
    by (simp add: clock_defs)
  have "attendance (markAttendance utc monday_noon WaCredential
     (run utc monday_noon (setup_s1 @ [EvCapture]) (init_state utc monday_noon jan_1_2024)))
     (str ''s1'') = [19723]"
    using marked_monday_state by (simp add: marked_monday_def run_append)
  then show ?thesis
    using markAttendance_idempotent [OF day, of utc WaCredential] day by simp
qed

section \<open>Present days and working days\<close>

text \<open>
  What the component shows right after a mark is the memoised list of before: the
  present days of \<open>marked_monday\<close> are still 0. A page load brings them up to date.
\<close>

lemma presentDays_stale_after_mark:
  "presentDays marked_monday = 0"
  "presentDays (apply_event utc monday_noon (EvReload jan_1_2024) marked_monday) = 1"
  by (simp_all add: presentDays_def marked_monday_state mount_def student_s1_def verified_s1_def
        op_defs)

text \<open>
  C8, as the code has it. In every reachable state whose semester start is a date no
  later than every date of the user's ledger, the number of present days is at most the
  number of working days from the semester start to today. Stated for a time zone
  whose offset does not change, and for statistics that are up to date, as they are
  right after a page load (what the code shows across a change of offset, or from
  memoised values computed earlier, is left out).
\<close>

theorem presentDays_le_workingDays:
  assumes "reachable (fixed_zone tz) now s"
    and "stats_fresh (fixed_zone tz) now s"
    and "semStart s = Some start"
    and "\<forall>d \<in> set (attendanceDates s). start \<le> d"
  shows "presentDays s \<le> workingDays s"
proof -
  have inv: "ledger_inv (fixed_zone tz) now (attendance s)"
    using assms(1) by (rule reachable_ledger_inv)
  have ad: "attendanceDates s = compute_attendanceDates (heap s) (attendance s) (user s)"
    and wd: "workingDays s = workingDaysCount (fixed_zone tz) start (todayISO now)"
    using assms(2,3) by (simp_all add: stats_fresh_def compute_workingDays_def)
  have dist: "distinct (attendanceDates s)"
    and ok: "\<forall>d \<in> set (attendanceDates s).
        isWeekday (fixed_zone tz) (new_Date d) \<and> d \<le> todayISO now"
    using inv unfolding ad
    by (auto simp: compute_attendanceDates_def loadAttendance_def ledger_inv_def
          split: option.splits)
  have "set (attendanceDates s) \<subseteq>
      {d. start \<le> d \<and> d \<le> todayISO now \<and> isWeekday (fixed_zone tz) (new_Date d)}"
    using ok assms(4) by auto
  then have "card (set (attendanceDates s)) \<le> workingDaysCount (fixed_zone tz) start (todayISO now)"
    unfolding workingDaysCount_card by (rule card_mono [OF finite_working_dates])
  then show ?thesis
    using dist by (simp add: presentDays_def wd distinct_card)
qed

text \<open>Student \<open>s1\<close> has marked Monday 1 January 2024 and loads the page again on
  Tuesday, the semester starting on 1 January: one present day, two working days.\<close>

theorem presentDays_le_workingDays_witness:
  "reachable (fixed_zone 0) tuesday_noon
     (apply_event (fixed_zone 0) tuesday_noon (EvReload jan_1_2024) marked_monday) \<and>
   stats_fresh (fixed_zone 0) tuesday_noon
     (apply_event (fixed_zone 0) tuesday_noon (EvReload jan_1_2024) marked_monday) \<and>
   semStart (apply_event (fixed_zone 0) tuesday_noon (EvReload jan_1_2024) marked_monday) =
     Some 19723 \<and>
   attendanceDates (apply_event (fixed_zone 0) tuesday_noon (EvReload jan_1_2024) marked_monday) =
     [19723] \<and>
   presentDays (apply_event (fixed_zone 0) tuesday_noon (EvReload jan_1_2024) marked_monday) \<le>
   workingDays (apply_event (fixed_zone 0) tuesday_noon (EvReload jan_1_2024) marked_monday)"
proof -
  define s where
    "s = apply_event (fixed_zone 0) tuesday_noon (EvReload jan_1_2024) marked_monday"
  have "reachable utc tuesday_noon marked_monday"
    by (rule reachable_wait [OF reachable_marked_monday])
       (simp add: monday_noon_def tuesday_noon_def)
  then have "reachable (fixed_zone 0) tuesday_noon marked_monday"
    by (simp add: utc_def)
  then have r: "reachable (fixed_zone 0) tuesday_noon s"
    unfolding s_def by (rule reachable_event) simp
  have f: "stats_fresh (fixed_zone 0) tuesday_noon s"
    unfolding s_def by (simp add: stats_fresh_mount)
  have st: "semStart s = Some 19723" "attendanceDates s = [19723]"
    by (simp_all add: s_def marked_monday_state mount_def student_s1_def verified_s1_def
          jan_1_2024_def op_defs)
  have ge: "\<forall>d \<in> set (attendanceDates s). 19723 \<le> d" by (simp add: st)
  have "reachable (fixed_zone 0) tuesday_noon s \<and> stats_fresh (fixed_zone 0) tuesday_noon s \<and>
    semStart s = Some 19723 \<and> attendanceDates s = [19723] \<and> presentDays s \<le> workingDays s"
    using presentDays_le_workingDays [OF r f st(1) ge] r f st by simp
  then show ?thesis unfolding s_def .
qed

text \<open>
  The claim as stated fails once the user moves the semester start past a marked day:
  after marking Monday 1 January, loading the page again and setting the start to
  2 January, the statistics are up to date, one day is present and no day is a working
  day.
\<close>

theorem presentDays_exceeds_workingDays:
  "reachable utc monday_noon
     (run utc monday_noon [EvReload jan_1_2024, EvSetSemStart (Some 19724)] marked_monday) \<and>
   stats_fresh utc monday_noon
     (run utc monday_noon [EvReload jan_1_2024, EvSetSemStart (Some 19724)] marked_monday) \<and>
   presentDays
     (run utc monday_noon [EvReload jan_1_2024, EvSetSemStart (Some 19724)] marked_monday) = 1 \<and>
   workingDays
     (run utc monday_noon [EvReload jan_1_2024, EvSetSemStart (Some 19724)] marked_monday) = 0"
proof -
  let ?es = "[EvReload jan_1_2024, EvSetSemStart (Some 19724)]"
  have e: "workingDaysCount utc 19724 (todayISO monday_noon) = 0"
    by (rule workingDaysCount_empty) (simp add: clock_defs)
  have "runnable utc monday_noon ?es marked_monday"
    by (simp add: marked_monday_state mount_def student_s1_def verified_s1_def op_defs)
  with reachable_marked_monday
  have "reachable utc monday_noon (run utc monday_noon ?es marked_monday)"
    by (rule reachable_run)
  then show ?thesis
    using e
    by (simp add: marked_monday_state mount_def student_s1_def verified_s1_def op_defs
          presentDays_def stats_fresh_def compute_workingDays_def jan_1_2024_def)
qed

text \<open>
  Where the offset changes, the claim fails even with the semester start on the first
  marked day: in Central European time, with Friday 25 and Monday 28 October 2024
  marked and the semester starting on 25 October, the loop leaves the Monday out
  (\<open>workingDaysCount_berlin_autumn_2024\<close>): two present days, one working day.
  (Day 19996 is 30 September 2024, what \<^verbatim>\<open>defaultSemesterStart()\<close> gives there in
  October: local midnight of 1 October, as a UTC date.)
\<close>

lemma utc_offset_berlin_autumn_2024:
  "utc_offset berlin_autumn_2024 t = (if t < 20023 * 86400000 + 3600000 then 7200000 else 3600000)"
  by transfer simp

lemma presentDays_exceeds_workingDays_across_dst:
  "reachable berlin_autumn_2024 1730116800000
     (run berlin_autumn_2024 1730116800000
        [EvMarkAttendance WaCredential, EvReload 19996, EvSetSemStart (Some 20021)]
        (run berlin_autumn_2024 1729857600000
           (setup_s1 @ [EvCapture, EvMarkAttendance WaCredential])
           (init_state berlin_autumn_2024 1729857600000 19996))) \<and>
   stats_fresh berlin_autumn_2024 1730116800000
     (run berlin_autumn_2024 1730116800000
        [EvMarkAttendance WaCredential, EvReload 19996, EvSetSemStart (Some 20021)]
        (run berlin_autumn_2024 1729857600000
           (setup_s1 @ [EvCapture, EvMarkAttendance WaCredential])
           (init_state berlin_autumn_2024 1729857600000 19996))) \<and>
   attendanceDates
     (run berlin_autumn_2024 1730116800000
        [EvMarkAttendance WaCredential, EvReload 19996, EvSetSemStart (Some 20021)]
        (run berlin_autumn_2024 1729857600000
           (setup_s1 @ [EvCapture, EvMarkAttendance WaCredential])
           (init_state berlin_autumn_2024 1729857600000 19996))) = [20021, 20024] \<and>
   workingDays
     (run berlin_autumn_2024 1730116800000
        [EvMarkAttendance WaCredential, EvReload 19996, EvSetSemStart (Some 20021)]
        (run berlin_autumn_2024 1729857600000
           (setup_s1 @ [EvCapture, EvMarkAttendance WaCredential])
           (init_state berlin_autumn_2024 1729857600000 19996))) = 1"
proof -
  let ?z = berlin_autumn_2024
  let ?es1 = "[EvCapture, EvMarkAttendance WaCredential]"
  let ?es2 = "[EvMarkAttendance WaCredential, EvReload 19996, EvSetSemStart (Some 20021)]"
  define s1 where "s1 = run ?z 1729857600000 (setup_s1 @ ?es1) (init_state ?z 1729857600000 19996)"
  have wd: "isWeekday ?z (new_Date 20021)" "isWeekday ?z (new_Date 20024)"
    "todayISO 1729857600000 = 20021" "todayISO 1730116800000 = 20024"
    by (simp_all add: isWeekday_def getDay_def LocalTime_def utc_offset_berlin_autumn_2024
          new_Date_def todayISO_def msPerDay_def)
  have "runnable ?z 1729857600000 ?es1 (run ?z 1729857600000 setup_s1 (init_state ?z 1729857600000 19996))"
    by (simp add: setup_s1_state op_defs)
  then have "reachable ?z 1729857600000 s1"
    unfolding s1_def by (rule reachable_after_setup_s1)
  then have r1: "reachable ?z 1730116800000 s1"
    by (rule reachable_wait) simp
  have st1: "attendance s1 = (\<lambda>cid. [])(str ''s1'' := [20021])" "users s1 = [str ''s1'' \<mapsto> student_s1]"
    "session s1 = Some (str ''s1'')" "user s1 = Some (Plain student_s1)" "shotBlob s1"
    "view s1 = ViewApp" "\<not> marking s1" "heap s1 = pristine_heap"
    by (simp_all add: s1_def run_append setup_s1_state student_s1_def verified_s1_def wd op_defs)
  have run2: "runnable ?z 1730116800000 ?es2 s1"
    by (simp add: st1 wd mount_def student_s1_def verified_s1_def op_defs)
  have r2: "reachable ?z 1730116800000 (run ?z 1730116800000 ?es2 s1)"
    using r1 run2 by (rule reachable_run)
  have "reachable ?z 1730116800000 (run ?z 1730116800000 ?es2 s1) \<and>
    stats_fresh ?z 1730116800000 (run ?z 1730116800000 ?es2 s1) \<and>
    attendanceDates (run ?z 1730116800000 ?es2 s1) = [20021, 20024] \<and>
    workingDays (run ?z 1730116800000 ?es2 s1) = 1"
    using r2
    by (simp add: st1 wd markAttendance_def mount_def student_s1_def verified_s1_def op_defs
          stats_fresh_def compute_workingDays_def workingDaysCount_berlin_autumn_2024)
  then show ?thesis unfolding s1_def .
qed


section \<open>Rounding to binary64 and to hundredths\<close>


lemma binade_bounds:
  assumes "0 < x"
  shows "2 powi (binade x) \<le> x" and "x < 2 powi (binade x + 1)"
proof -
  have "2 powi (binade x) \<le> x \<and> x < 2 powi (binade x + 1)"
  proof (cases "1 \<le> x")
    case True
    define n where "n = \<lfloor>x\<rfloor>"
    have n1: "1 \<le> n" using True by (simp add: n_def le_floor_iff)
    then have n0: "0 < n" by simp
    have b1: "1 \<le> bitlen n" using n0 by (simp add: bitlen_alt_def)
    from bitlen_bounds [OF n0]
    have lo: "2 ^ nat (bitlen n - 1) \<le> n" and hi: "n < 2 ^ nat (bitlen n)" by simp_all
    have e: "binade x = bitlen n - 1" using True by (simp add: binade_def n_def)
    have "(2::rat) powi (bitlen n - 1) = 2 ^ nat (bitlen n - 1)"
      using b1 by (simp add: power_int_def)
    also have "\<dots> = of_int (2 ^ nat (bitlen n - 1))" by simp
    also have "\<dots> \<le> of_int n" using lo by (simp only: of_int_le_iff)
    also have "\<dots> \<le> x" by (simp add: n_def)
    finally have A: "2 powi (binade x) \<le> x" by (simp add: e)
    have "n + 1 \<le> 2 ^ nat (bitlen n)" using hi by simp
    then have "(of_int (n + 1) :: rat) \<le> of_int (2 ^ nat (bitlen n))" by (simp only: of_int_le_iff)
    moreover have "x < of_int (n + 1)" unfolding n_def by linarith
    moreover have "(2::rat) powi (bitlen n) = 2 ^ nat (bitlen n)"
      using b1 by (simp add: power_int_def)
    ultimately have B: "x < 2 powi (binade x + 1)" by (simp add: e)
    from A B show ?thesis ..
  next
    case False
    then have x1: "x < 1" by simp
    define y where "y = 1 / x"
    define m where "m = \<lceil>y\<rceil> - 1"
    have y1: "1 < y" using assms x1 by (simp add: y_def)
    have my: "of_int m < y" "y \<le> of_int m + 1"
      unfolding m_def by (simp, linarith) simp
    have m0: "0 < m" using y1 by (simp add: m_def less_ceiling_iff)
    have b1: "1 \<le> bitlen m" using m0 by (simp add: bitlen_alt_def)
    from bitlen_bounds [OF m0]
    have lo: "2 ^ nat (bitlen m - 1) \<le> m" and hi: "m < 2 ^ nat (bitlen m)" by simp_all
    have e: "binade x = - bitlen m" using False by (simp add: binade_def m_def y_def)
    have xy: "x = 1 / y" using assms by (simp add: y_def)
    have "m + 1 \<le> 2 ^ nat (bitlen m)" using hi by simp
    then have "(of_int (m + 1) :: rat) \<le> of_int (2 ^ nat (bitlen m))" by (simp only: of_int_le_iff)
    then have "y \<le> 2 ^ nat (bitlen m)" using my(2) by simp
    then have "1 / 2 ^ nat (bitlen m) \<le> 1 / y"
      using y1 by (intro divide_left_mono) simp_all
    moreover have "(2::rat) powi (- bitlen m) = 1 / 2 ^ nat (bitlen m)"
      using b1 by (simp add: power_int_def field_simps)
    ultimately have A: "2 powi (binade x) \<le> x" unfolding e by (simp add: xy)
    have "(2::rat) ^ nat (bitlen m - 1) = of_int (2 ^ nat (bitlen m - 1))" by simp
    also have "\<dots> \<le> of_int m" using lo by (simp only: of_int_le_iff)
    also have "\<dots> < y" by (rule my(1))
    finally have "1 / y < 1 / 2 ^ nat (bitlen m - 1)"
      using y1 by (intro divide_strict_left_mono) simp_all
    moreover have "(2::rat) powi (- bitlen m + 1) = 1 / 2 ^ nat (bitlen m - 1)"
    proof -
      have "- bitlen m + 1 = - (bitlen m - 1)" by simp
      then have "(2::rat) powi (- bitlen m + 1) = inverse (2 powi (bitlen m - 1))"
        by (simp only: power_int_minus)
      also have "\<dots> = 1 / 2 ^ nat (bitlen m - 1)"
        using b1 by (simp add: power_int_def field_simps)
      finally show ?thesis .
    qed
    ultimately have B: "x < 2 powi (binade x + 1)" unfolding e by (simp add: xy)
    from A B show ?thesis ..
  qed
  then show "2 powi (binade x) \<le> x" and "x < 2 powi (binade x + 1)" by simp_all
qed

lemma rne_error: "\<bar>of_int (rne x) - x\<bar> \<le> 1 / 2"
proof -
  have "of_int \<lfloor>x\<rfloor> \<le> x" "x < of_int \<lfloor>x\<rfloor> + 1" by linarith+
  then show ?thesis by (auto simp: rne_def Let_def)
qed

lemma round_double_error:
  assumes "x \<noteq> 0"
  shows "\<bar>round_double x - x\<bar> \<le> \<bar>x\<bar> / 2 ^ 53"
proof -
  define a where "a = \<bar>x\<bar>"
  define e where "e = binade a - 52"
  define P where "P = (2::rat) powi e"
  define m where "m = rne (a / P)"
  have a0: "0 < a" using assms by (simp add: a_def)
  have P0: "0 < P" by (simp add: P_def)
  have r: "round_double x = sgn x * of_int m * P"
    using assms by (simp add: round_double_def Let_def a_def e_def P_def m_def)
  have x: "x = sgn x * a" by (simp add: a_def sgn_mult_abs)
  have "round_double x - x = sgn x * (of_int m * P - a)"
    by (subst (2) x) (simp add: r algebra_simps)
  then have "\<bar>round_double x - x\<bar> = \<bar>of_int m * P - a\<bar>"
    using assms by (simp add: abs_mult abs_sgn_eq)
  also have "of_int m * P - a = (of_int m - a / P) * P"
    using P0 by (simp add: field_simps)
  also have "\<bar>(of_int m - a / P) * P\<bar> = \<bar>of_int m - a / P\<bar> * P"
    using P0 by (simp add: abs_mult)
  also have "\<dots> \<le> 1 / 2 * P"
    using P0 rne_error [of "a / P"] by (intro mult_right_mono) (simp_all add: m_def)
  also have "\<dots> = 2 powi (binade a) / 2 ^ 53"
    unfolding P_def e_def by (simp add: power_int_diff)
  also have "\<dots> \<le> a / 2 ^ 53"
    using binade_bounds(1) [OF a0] by (intro divide_right_mono) simp_all
  finally show ?thesis by (simp add: a_def)
qed


lemma round_double_zero: "round_double 0 = 0"
  by (simp add: round_double_def)

lemma round_double_neg_iff: "round_double x < 0 \<longleftrightarrow> x < 0"
proof (cases "x = 0")
  case True
  then show ?thesis by (simp add: round_double_zero)
next
  case False
  have "\<bar>x\<bar> / 2 ^ 53 < \<bar>x\<bar>" using False by simp
  then have "\<bar>round_double x - x\<bar> < \<bar>x\<bar>"
    by (rule le_less_trans [OF round_double_error [OF False]])
  then show ?thesis by (auto simp: abs_if split: if_splits)
qed

lemma half_int_gap:
  fixes n N w :: int and T :: rat
  assumes w: "0 < w" and T: "T = of_int N / of_int w" and pos: "0 < of_int n - T"
  shows "1 / of_int w \<le> of_int n - T"
proof -
  have eq: "of_int (n * w - N) = (of_int n - T) * of_int w"
    using w by (simp add: T field_simps)
  have "0 < (of_int n - T) * (of_int w :: rat)" using pos w by simp
  then have "(0::rat) < of_int (n * w - N)" by (simp only: eq)
  then have "0 < n * w - N" by (simp only: of_int_0_less_iff)
  then have "1 \<le> n * w - N" by linarith
  then have "(1::rat) \<le> of_int (n * w - N)" by (simp only: of_int_1_le_iff)
  then have "1 \<le> (of_int n - T) * of_int w" by (simp only: eq)
  then show ?thesis using w by (simp add: pos_divide_le_eq)
qed

lemma nearest_stable:
  fixes t' :: rat and N w :: int
  assumes w: "0 < w" and close: "\<bar>t' - of_int N / of_int w\<bar> < 1 / (2 * of_int w)"
  shows "\<bar>(of_int \<lfloor>t' + 1 / 2\<rfloor> :: rat) - of_int N / of_int w\<bar> \<le> 1 / 2"
proof -
  define n where "n = \<lfloor>t' + 1 / 2\<rfloor>"
  define T where "T = (of_int N / of_int w :: rat)"
  define g where "g = 1 / (2 * of_int w :: rat)"
  have n1: "of_int n \<le> t' + 1 / 2" and n2: "t' + 1 / 2 < of_int n + 1"
    unfolding n_def by linarith+
  have c1: "t' - T < g" and c2: "T - t' < g"
    using close by (simp_all add: T_def g_def abs_less_iff)
  have w2: "0 < 2 * w" using w by simp
  have twoT: "(of_int (2 * N) / of_int w :: rat) = 2 * T"
    and twoT': "(of_int (- (2 * N)) / of_int w :: rat) = - (2 * T)"
    and twog: "(1 / of_int w :: rat) = 2 * g"
    by (simp_all add: T_def g_def)
  have "\<bar>of_int n - T\<bar> \<le> 1 / 2"
  proof (rule ccontr)
  assume "\<not> \<bar>of_int n - T\<bar> \<le> 1 / 2"
  then have "1 / 2 < \<bar>of_int n - T\<bar>" by simp
  then consider "1 / 2 < of_int n - T" | "1 / 2 < T - of_int n" by (auto simp: abs_if split: if_splits)
  then show False
  proof cases
    case 1
    have p: "0 < of_int (2 * n - 1) - (of_int (2 * N) / of_int w :: rat)"
      unfolding twoT using 1 by simp
    have "of_int (2 * N) / of_int w = (of_int (2 * N) / of_int w :: rat)" ..
    from half_int_gap [OF w this p]
    have "1 / of_int w \<le> of_int (2 * n - 1) - (of_int (2 * N) / of_int w :: rat)" .
    then have "2 * g \<le> 2 * of_int n - 1 - 2 * T"
      unfolding twoT twog by simp
    then show False using n1 c1 by linarith
  next
    case 2
    have p: "0 < of_int (- (2 * n + 1)) - (of_int (- (2 * N)) / of_int w :: rat)"
      unfolding twoT' using 2 by simp
    have "of_int (- (2 * N)) / of_int w = (of_int (- (2 * N)) / of_int w :: rat)" ..
    from half_int_gap [OF w this p]
    have "1 / of_int w \<le> of_int (- (2 * n + 1)) - (of_int (- (2 * N)) / of_int w :: rat)" .
    then have "2 * g \<le> 2 * T - 2 * of_int n - 1"
      unfolding twoT' twog by simp
    then show False using n2 c2 by linarith
  qed
  qed
  then show ?thesis by (simp add: n_def T_def)
qed


lemma round_double_error_le: "\<bar>round_double x - x\<bar> \<le> \<bar>x\<bar> * (1 / 2 ^ 53)"
  using round_double_error [of x] by (cases "x = 0") (simp_all add: round_double_zero)

lemma percentage_rounding:
  fixes k :: int and w :: nat
  assumes w: "0 < w" and k: "\<bar>k\<bar> < 2 ^ 32"
  shows "fmul (fdiv (of_int k) (of_nat w)) 100 < 0 \<longleftrightarrow> k < 0"
    and "\<bar>(of_int \<lfloor>\<bar>fmul (fdiv (of_int k) (of_nat w)) 100\<bar> * 100 + 1 / 2\<rfloor> :: rat) -
           of_int (10000 * \<bar>k\<bar>) / of_nat w\<bar> \<le> 1 / 2"
proof -
  define E :: rat where "E = of_int k / of_nat w"
  define u :: rat where "u = 1 / 2 ^ 53"
  define y1 where "y1 = round_double E"
  define y2 where "y2 = round_double (y1 * 100)"
  define A where "A = \<bar>E\<bar> * u"
  have y: "fmul (fdiv (of_int k) (of_nat w)) 100 = y2"
    by (simp add: fmul_def fdiv_def y1_def y2_def E_def)
  have wr: "(0::rat) < of_nat w" using w by simp
  have "y2 < 0 \<longleftrightarrow> y1 * 100 < 0" unfolding y2_def by (rule round_double_neg_iff)
  also have "\<dots> \<longleftrightarrow> E < 0" unfolding y1_def by (simp add: round_double_neg_iff)
  also have "\<dots> \<longleftrightarrow> k < 0" using wr by (simp add: E_def divide_less_0_iff)
  finally show "fmul (fdiv (of_int k) (of_nat w)) 100 < 0 \<longleftrightarrow> k < 0" by (simp only: y)
  have u0: "0 < u" and u1: "u \<le> 1" by (simp_all add: u_def)
  have A0: "0 \<le> A" using u0 by (simp add: A_def)
  have Au: "A * u \<le> A" using A0 u1 by (simp add: mult_left_le)
  have e1: "\<bar>y1 - E\<bar> \<le> A"
    unfolding y1_def A_def u_def by (rule round_double_error_le)
  have e2: "\<bar>y2 - y1 * 100\<bar> \<le> \<bar>y1 * 100\<bar> * u"
    unfolding y2_def u_def by (rule round_double_error_le)
  have b1: "\<bar>y1\<bar> \<le> \<bar>E\<bar> + A" using e1 by linarith
  have "\<bar>y1 * 100\<bar> * u = 100 * (\<bar>y1\<bar> * u)" by (simp add: abs_mult)
  also have "\<bar>y1\<bar> * u \<le> (\<bar>E\<bar> + A) * u"
    using b1 u0 by (intro mult_right_mono) simp_all
  also have "(\<bar>E\<bar> + A) * u = A + A * u" by (simp add: A_def algebra_simps)
  finally have "\<bar>y1 * 100\<bar> * u \<le> 100 * (A + A * u)" by simp
  moreover have "100 * (A + A * u) \<le> 200 * A" using Au by simp
  ultimately have "\<bar>y1 * 100\<bar> * u \<le> 200 * A" by (rule order_trans)
  with e2 have e2': "\<bar>y2 - y1 * 100\<bar> \<le> 200 * A" by (rule order_trans)
  have e3: "\<bar>y2 - E * 100\<bar> \<le> 300 * A" using e1 e2' by linarith
  have e4: "\<bar>\<bar>y2\<bar> * 100 - \<bar>E\<bar> * 10000\<bar> \<le> 30000 * A" using e3 by linarith
  have T: "\<bar>E\<bar> * 10000 = of_int (10000 * \<bar>k\<bar>) / of_int (int w)"
    using wr by (simp add: E_def abs_divide)
  have "\<bar>k\<bar> * 60000 < 2 ^ 32 * 60000" using k by simp
  then have "\<bar>k\<bar> * 60000 < 2 ^ 53" by simp
  then have "(of_int (\<bar>k\<bar> * 60000) :: rat) < of_int (2 ^ 53)" by (simp only: of_int_less_iff)
  then have kk: "(of_int \<bar>k\<bar> :: rat) * 60000 * u < 1" by (simp add: u_def)
  have "30000 * A = (of_int \<bar>k\<bar> * 60000 * u) * (1 / (2 * of_nat w))"
    using wr by (simp add: A_def E_def abs_divide)
  also have "\<dots> < 1 * (1 / (2 * of_nat w))"
    using kk wr by (intro mult_strict_right_mono) simp_all
  finally have small: "30000 * A < 1 / (2 * of_int (int w))" by simp
  have close: "\<bar>\<bar>y2\<bar> * 100 - of_int (10000 * \<bar>k\<bar>) / of_int (int w)\<bar> < 1 / (2 * of_int (int w))"
    using e4 small unfolding T by linarith
  have "0 < int w" using w by simp
  from nearest_stable [OF this close]
  show "\<bar>(of_int \<lfloor>\<bar>fmul (fdiv (of_int k) (of_nat w)) 100\<bar> * 100 + 1 / 2\<rfloor> :: rat) -
           of_int (10000 * \<bar>k\<bar>) / of_nat w\<bar> \<le> 1 / 2"
    by (simp add: y)
qed

section \<open>Statistics\<close>

lemma round_double_one: "round_double 1 = 1"
  by code_simp

lemma round_double_hundred: "round_double 100 = 100"
  by code_simp

declare decimal.simps [simp del]

lemma digit_char_0: "digit_char 0 = CHR ''0''"
  by code_simp

lemma digit_char_1: "digit_char (Suc 0) = CHR ''1''"
  by code_simp

lemma decimal_10000: "decimal 10000 = ''10000''"
proof -
  have "decimal 1 = ''1''" by (subst decimal.simps) (simp add: digit_char_1)
  then have "decimal 10 = ''10''" by (subst decimal.simps) (simp add: digit_char_0)
  then have "decimal 100 = ''100''" by (subst decimal.simps) (simp add: digit_char_0)
  then have "decimal 1000 = ''1000''" by (subst decimal.simps) (simp add: digit_char_0)
  then show ?thesis by (subst decimal.simps) (simp add: digit_char_0)
qed

lemma toFixed2_hundred: "toFixed2 100 = ''100.00''"
proof -
  have "\<lfloor>(100::rat) * 100 + 1 / 2\<rfloor> = 10000"
    by (rule floor_unique) simp_all
  then show ?thesis
    by (simp add: toFixed2_def fixed2_string_def decimal_10000)
qed

lemma toFixed2_minus_third: "toFixed2 (fmul (fdiv (- 1) 3) 100) = ''-33.33''"
  by code_simp

text \<open>
  C1. The absent days are \<open>max(0, workingDays - presentDays)\<close>. With no working day
  the percentage is the number 0, and nothing is divided. Otherwise the percentage is
  the string of \<open>(presentDays - absentDays) / workingDays * 100\<close> rounded to two
  decimals: its sign (a minus when absent days outnumber present days), and the digits
  of a number \<open>n\<close> of hundredths that is nearest to the exact value, although the
  quotient and the product are computed in binary64. The counts are below \<open>2 ^ 32\<close>,
  as array lengths and day counts of JavaScript dates are.
\<close>

theorem stats_result:
  assumes "workingDays s < 2 ^ 32" and "presentDays s < 2 ^ 32"
  shows "int (absentDays s) = max 0 (int (workingDays s) - int (presentDays s)) \<and>
         (workingDays s = 0 \<longrightarrow> percentage s = JNumber 0) \<and>
         (workingDays s \<noteq> 0 \<longrightarrow>
            (\<exists>n. percentage s =
                   JString (fixed2_string (presentDays s < absentDays s) n) \<and>
                 \<bar>of_nat n / 100 -
                  \<bar>exact_percentage (workingDays s) (presentDays s) (absentDays s)\<bar>\<bar>
                   \<le> 1 / 200))"
proof -
  let ?w = "workingDays s"
  let ?p = "presentDays s"
  let ?a = "absentDays s"
  define k where "k = int ?p - int ?a"
  define y where "y = fmul (fdiv (of_int k) (of_nat ?w)) 100"
  define z where "z = \<lfloor>\<bar>y\<bar> * 100 + 1 / 2\<rfloor>"
  have a: "int ?a = max 0 (int ?w - int ?p)"
    by (simp add: absentDays_def)
  have zero: "?w = 0 \<longrightarrow> percentage s = JNumber 0"
    by (simp add: percentage_def)
  have pos: "\<exists>n. percentage s = JString (fixed2_string (?p < ?a) n) \<and>
      \<bar>of_nat n / 100 - \<bar>exact_percentage ?w ?p ?a\<bar>\<bar> \<le> 1 / 200" if w0: "?w \<noteq> 0"
  proof -
    have bw: "int ?w < 2 ^ 32" and bp: "int ?p < 2 ^ 32"
      using assms by simp_all
    have "0 \<le> int ?a" "int ?a \<le> int ?w" using a by simp_all
    then have k: "\<bar>k\<bar> < 2 ^ 32" using bw bp unfolding k_def by linarith
    have w: "0 < ?w" using w0 by simp
    have "y < 0 \<longleftrightarrow> k < 0"
      unfolding y_def by (rule percentage_rounding(1) [OF w k])
    then have neg: "y < 0 \<longleftrightarrow> ?p < ?a" unfolding k_def by linarith
    have z0: "0 \<le> z" unfolding z_def by simp
    have near: "\<bar>(of_int z :: rat) - of_int (10000 * \<bar>k\<bar>) / of_nat ?w\<bar> \<le> 1 / 2"
      unfolding z_def y_def by (rule percentage_rounding(2) [OF w k])
    have "exact_percentage ?w ?p ?a = of_int k / of_nat ?w * 100"
      unfolding exact_percentage_def k_def ..
    then have "\<bar>exact_percentage ?w ?p ?a\<bar> = of_int (10000 * \<bar>k\<bar>) / of_nat ?w / 100"
      by (simp add: abs_mult abs_divide)
    then have "of_int z / 100 - \<bar>exact_percentage ?w ?p ?a\<bar> =
        (of_int z - of_int (10000 * \<bar>k\<bar>) / of_nat ?w) / 100"
      by (simp only: diff_divide_distrib)
    then have "\<bar>of_int z / 100 - \<bar>exact_percentage ?w ?p ?a\<bar>\<bar> =
        \<bar>(of_int z :: rat) - of_int (10000 * \<bar>k\<bar>) / of_nat ?w\<bar> / 100"
      by (simp only: abs_divide)
    also have "\<dots> \<le> 1 / 2 / 100"
      using near by (rule divide_right_mono) simp
    finally have "\<bar>of_int z / 100 - \<bar>exact_percentage ?w ?p ?a\<bar>\<bar> \<le> 1 / 200" by simp
    moreover have "(of_nat (nat z) :: rat) = of_int z" using z0 by simp
    ultimately have close: "\<bar>of_nat (nat z) / 100 - \<bar>exact_percentage ?w ?p ?a\<bar>\<bar> \<le> 1 / 200"
      by (simp only:)
    have "percentage s = JString (toFixed2 y)"
      using w0 unfolding percentage_def y_def k_def by simp
    also have "toFixed2 y = fixed2_string (?p < ?a) (nat z)"
      unfolding toFixed2_def z_def neg ..
    finally have "percentage s = JString (fixed2_string (?p < ?a) (nat z))" .
    with close show ?thesis by blast
  qed
  from a zero pos show ?thesis by blast
qed

text \<open>
  Student \<open>s1\<close> has marked Monday 1 January 2024 and loads the page again on
  Wednesday: three working days, one present day, two absent days, and the percentage
  is "-33.33".
\<close>

theorem stats_result_witness:
  "workingDays (apply_event utc wednesday_noon (EvReload jan_1_2024) marked_monday) = 3 \<and>
   presentDays (apply_event utc wednesday_noon (EvReload jan_1_2024) marked_monday) = 1 \<and>
   absentDays (apply_event utc wednesday_noon (EvReload jan_1_2024) marked_monday) = 2 \<and>
   percentage (apply_event utc wednesday_noon (EvReload jan_1_2024) marked_monday) =
     JString ''-33.33'' \<and>
   (\<exists>n. percentage (apply_event utc wednesday_noon (EvReload jan_1_2024) marked_monday) =
          JString (fixed2_string True n) \<and>
        \<bar>of_nat n / 100 - \<bar>exact_percentage 3 1 2\<bar>\<bar> \<le> 1 / 200)"
proof -
  define s where "s = apply_event utc wednesday_noon (EvReload jan_1_2024) marked_monday"
  have wd: "workingDaysCount utc 19723 19725 = 3"
    unfolding utc_def by code_simp
  have w: "workingDays s = 3"
    by (simp add: s_def marked_monday_state mount_def student_s1_def verified_s1_def op_defs
          compute_workingDays_def jan_1_2024_def wednesday_noon_def todayISO_def msPerDay_def wd)
  have p: "presentDays s = 1"
    by (simp add: s_def presentDays_def marked_monday_state mount_def student_s1_def
          verified_s1_def op_defs)
  have a: "absentDays s = 2" by (simp add: absentDays_def w p)
  have pc: "percentage s = JString ''-33.33''"
    by (simp add: percentage_def w p a toFixed2_minus_third)
  have b: "workingDays s < 2 ^ 32" "presentDays s < 2 ^ 32"
    by (simp_all add: w p)
  have "workingDays s = 3 \<and> presentDays s = 1 \<and>
    absentDays s = 2 \<and> percentage s = JString ''-33.33'' \<and>
    (\<exists>n. percentage s = JString (fixed2_string True n) \<and>
        \<bar>of_nat n / 100 - \<bar>exact_percentage 3 1 2\<bar>\<bar> \<le> 1 / 200)"
    using stats_result [OF b] w p a pc by simp
  then show ?thesis unfolding s_def .
qed

text \<open>
  C2, as the code has it. When the present days equal the working days and there is at
  least one working day, the percentage is "100.00". (With no working day and no
  present day it is the number 0.)
\<close>

theorem percentage_all_present:
  assumes "presentDays s = workingDays s" and "0 < workingDays s"
  shows "percentage s = JString ''100.00''"
proof -
  have a: "absentDays s = 0" using assms(1) by (simp add: absentDays_def)
  have "fdiv (of_int (int (presentDays s) - int (absentDays s)))
          (of_nat (workingDays s)) = 1"
    using assms by (simp add: a fdiv_def round_double_one)
  then show ?thesis
    using assms(2) by (simp add: percentage_def fmul_def round_double_hundred toFixed2_hundred)
qed

text \<open>Student \<open>s1\<close> has marked Monday 1 January 2024, the first day of the semester,
  and loads the page again.\<close>

theorem percentage_all_present_witness:
  "presentDays (apply_event utc monday_noon (EvReload jan_1_2024) marked_monday) = 1 \<and>
   workingDays (apply_event utc monday_noon (EvReload jan_1_2024) marked_monday) = 1 \<and>
   percentage (apply_event utc monday_noon (EvReload jan_1_2024) marked_monday) =
     JString ''100.00''"
proof -
  define s where "s = apply_event utc monday_noon (EvReload jan_1_2024) marked_monday"
  have wd: "workingDaysCount utc 19723 (todayISO monday_noon) = 1"
    by (simp add: workingDaysCount_same_day clock_defs)
  have w: "workingDays s = 1"
    using wd
    by (simp add: s_def marked_monday_state mount_def student_s1_def verified_s1_def op_defs
          compute_workingDays_def jan_1_2024_def)
  have p: "presentDays s = 1"
    by (simp add: s_def presentDays_def marked_monday_state mount_def student_s1_def
          verified_s1_def op_defs)
  have "presentDays s = 1 \<and> workingDays s = 1 \<and> percentage s = JString ''100.00''"
    using percentage_all_present [of s] w p by simp
  then show ?thesis unfolding s_def .
qed

text \<open>
  The claim as stated fails on a first visit on Saturday 1 June 2024: the semester
  starts that day, no day is a working day, no day is present, and the percentage is
  the number 0.
\<close>

theorem percentage_no_working_day:
  "reachable utc jun_1_noon (init_state utc jun_1_noon jun_1_2024) \<and>
   presentDays (init_state utc jun_1_noon jun_1_2024) = 0 \<and>
   workingDays (init_state utc jun_1_noon jun_1_2024) = 0 \<and>
   percentage (init_state utc jun_1_noon jun_1_2024) = JNumber 0 \<and>
   percentage (init_state utc jun_1_noon jun_1_2024) \<noteq> JString ''100.00''"
proof -
  have "workingDaysCount utc jun_1_2024 (todayISO jun_1_noon) = 0"
    by (simp add: workingDaysCount_same_day clock_defs)
  then have w: "workingDays (init_state utc jun_1_noon jun_1_2024) = 0"
    by (simp add: init_state_def mount_def compute_workingDays_def)
  have p: "presentDays (init_state utc jun_1_noon jun_1_2024) = 0"
    by (simp add: presentDays_def init_state_def mount_def)
  show ?thesis
    using reachable_init [of utc jun_1_noon jun_1_2024] by (simp add: w p percentage_def)
qed


end
